theory Spec2Isabelle
  imports Main
begin

unbundle bit_operations_syntax

section \<open>The statistics registry of syslog-ng (lib/stats.c)\<close>

text \<open>
  A shallow embedding of the statistics module: the registry of reference-counted
  counter clusters, level gating, dynamic counters, the publish-and-prune pass and the
  periodic timer. The global variables of the C file (\<open>stats_options\<close>,
  \<open>counter_hash\<close>, \<open>stats_locked\<close>, \<open>stats_timer\<close>) are the fields of one state
  record, which every function takes and returns. A failed \<open>g_assert\<close> aborts the
  process: it is the value \<open>Inl AssertionFailed\<close>, and no state is returned.
\<close>

subsection \<open>Data model\<close>

datatype error =
  AssertionFailed   \<comment> \<open>\<open>g_assert\<close> / \<open>g_assert_not_reached\<close>\<close>
| NullPointer       \<comment> \<open>a dereference of a \<open>NULL\<close> pointer\<close>
| DanglingPointer   \<comment> \<open>a \<open>StatsCluster *\<close> whose cluster is no longer in the table\<close>
| OutOfBounds       \<comment> \<open>an index outside \<open>tag_names\<close> / \<open>source_names\<close>\<close>
| Deadlock          \<comment> \<open>\<open>stats_lock\<close> on the non-recursive mutex while it is held\<close>

text \<open>
  Modelled from the spec: the enum \<open>StatsCounterType\<close> of stats.h, which is not part
  of the sources at hand. The kinds are Dropped, Processed, Stored, Suppressed, Stamp;
  their ordinals are the positions in the table \<open>tag_names\<close> of the C file. A kind is
  a \<open>nat\<close>, so that the range assertions of the code remain branches of the model.
\<close>

type_synonym StatsCounterType = nat

definition SC_TYPE_DROPPED :: StatsCounterType where "SC_TYPE_DROPPED = 0"
definition SC_TYPE_PROCESSED :: StatsCounterType where "SC_TYPE_PROCESSED = 1"
definition SC_TYPE_STORED :: StatsCounterType where "SC_TYPE_STORED = 2"
definition SC_TYPE_SUPPRESSED :: StatsCounterType where "SC_TYPE_SUPPRESSED = 3"
definition SC_TYPE_STAMP :: StatsCounterType where "SC_TYPE_STAMP = 4"
definition SC_TYPE_MAX :: nat where "SC_TYPE_MAX = 5"

text \<open>
  Modelled from the spec: the component-kind constants of stats.h (absent). The low
  bits of a packed \<open>source\<close> hold the enum value, which indexes \<open>source_names\<close> (so
  \<open>SCS_GROUP\<close> is the position of \<open>group\<close> and \<open>SCS_MAX\<close> the length of the
  table); two higher bits are the direction flags.
\<close>

definition SCS_SOURCE :: int where "SCS_SOURCE = 256"
definition SCS_DESTINATION :: int where "SCS_DESTINATION = 512"
definition SCS_SOURCE_MASK :: int where "SCS_SOURCE_MASK = 255"
definition SCS_GROUP :: int where "SCS_GROUP = 17"
definition SCS_MAX :: int where "SCS_MAX = 33"

text \<open>
  Modelled from the spec: \<open>StatsOptions\<close> and \<open>StatsCluster\<close> are declared in stats.h
  (absent). The integer fields are unbounded \<open>int\<close>s: \<open>ref_cnt\<close> is "the number of
  outstanding registrations", the cells hold counts and a Unix time. \<open>live_mask\<close> is a
  bit mask, read and written with \<open>AND\<close>, \<open>OR\<close> and shifts as in the code.
\<close>

record StatsOptions =
  level :: int
  log_freq :: int
  lifetime :: int

record StatsCluster =
  counters :: "int list"      \<comment> \<open>\<open>StatsCounterItem counters[SC_TYPE_MAX]\<close>, the \<open>value\<close> of each\<close>
  ref_cnt :: int
  source :: int
  id_str :: string            \<comment> \<open>the field \<open>id\<close>\<close>
  instance_str :: string      \<comment> \<open>the field \<open>instance\<close>\<close>
  live_mask :: nat
  dynamic :: bool

text \<open>
  The hash table \<open>counter_hash\<close> maps a cluster to itself; hashing and equality read
  only \<open>source\<close>, \<open>id\<close> and \<open>instance\<close>, which are written once, when the cluster is
  created. The table is the list of its clusters in the order in which GLib's
  \<open>g_hash_table_foreach\<close> visits them. A \<open>StatsCluster *\<close> is the key of the cluster it
  points to, a \<open>StatsCounterItem *\<close> that key and the index of the cell; \<open>None\<close> is
  \<open>NULL\<close>.
\<close>

type_synonym stats_key = "int \<times> string \<times> string"
type_synonym cluster_ptr = "stats_key option"
type_synonym counter_ptr = "(stats_key \<times> StatsCounterType) option"

record iv_timer =
  handler :: bool             \<comment> \<open>the handler is set (not \<open>NULL\<close>)\<close>
  cookie :: int
  registered :: bool
  expires :: int              \<comment> \<open>in milliseconds\<close>

datatype evt_pri = EVT_PRI_INFO | EVT_PRI_NOTICE

datatype EVTTAG =
  evt_tag_printf string string   \<comment> \<open>name and the formatted value\<close>
| evt_tag_int string int
| evt_tag_long string int

record EVTREC =
  ev_pri :: evt_pri
  ev_desc :: string
  ev_tags :: "EVTTAG list"

record stats_state =
  stats_options :: "StatsOptions option"
  counter_hash :: "StatsCluster list"
  stats_locked :: bool
  stats_timer :: iv_timer
  msg_sent :: "EVTREC list"   \<comment> \<open>what the logging facility has received, oldest first\<close>

subsection \<open>Keys, lookup and update through a pointer\<close>

definition cluster_key :: "StatsCluster \<Rightarrow> stats_key" where
  "cluster_key sc = (source sc, id_str sc, instance_str sc)"

definition stats_counter_equal :: "stats_key \<Rightarrow> stats_key \<Rightarrow> bool" where
  "stats_counter_equal k1 k2 =
     (fst k1 = fst k2 \<and> fst (snd k1) = fst (snd k2) \<and> snd (snd k1) = snd (snd k2))"

fun g_hash_table_lookup :: "StatsCluster list \<Rightarrow> stats_key \<Rightarrow> StatsCluster option" where
  "g_hash_table_lookup [] key = None"
| "g_hash_table_lookup (sc # rest) key =
     (if stats_counter_equal (cluster_key sc) key then Some sc
      else g_hash_table_lookup rest key)"

text \<open>An insertion under a key that the table does not hold; the position of the new
  entry in the iteration order is GLib's business, the model puts it last.\<close>

definition g_hash_table_insert :: "StatsCluster list \<Rightarrow> StatsCluster \<Rightarrow> StatsCluster list" where
  "g_hash_table_insert tbl sc = tbl @ [sc]"

text \<open>A write through a cluster pointer changes the one cluster the pointer refers to.\<close>

fun cluster_update ::
  "stats_key \<Rightarrow> (StatsCluster \<Rightarrow> StatsCluster) \<Rightarrow> StatsCluster list \<Rightarrow> StatsCluster list" where
  "cluster_update key f [] = []"
| "cluster_update key f (sc # rest) =
     (if stats_counter_equal (cluster_key sc) key then f sc # rest
      else sc # cluster_update key f rest)"

definition g_new0_StatsCluster :: StatsCluster where
  "g_new0_StatsCluster =
     \<lparr>counters = replicate SC_TYPE_MAX 0, ref_cnt = 0, source = 0, id_str = [],
      instance_str = [], live_mask = 0, dynamic = False\<rparr>"

definition type_bit :: "StatsCounterType \<Rightarrow> nat" where
  \<comment> \<open>\<open>1 << type\<close>\<close>
  "type_bit type = push_bit type 1"

definition str_or_empty :: "string option \<Rightarrow> string" where
  \<comment> \<open>\<open>if (!id) id = "";\<close>\<close>
  "str_or_empty p = (case p of None \<Rightarrow> [] | Some x \<Rightarrow> x)"

subsection \<open>Level gate and lock\<close>

definition stats_check_level :: "stats_state \<Rightarrow> int \<Rightarrow> bool" where
  "stats_check_level s lvl =
     (case stats_options s of
        Some opts \<Rightarrow> level opts \<ge> lvl
      | None \<Rightarrow> lvl = 0)"

text \<open>The model is of one thread: locking the mutex while it is held never returns.\<close>

definition stats_lock :: "stats_state \<Rightarrow> error + stats_state" where
  "stats_lock s = (if stats_locked s then Inl Deadlock else Inr (s\<lparr>stats_locked := True\<rparr>))"

definition stats_unlock :: "stats_state \<Rightarrow> stats_state" where
  "stats_unlock s = s\<lparr>stats_locked := False\<rparr>"

subsection \<open>Registration\<close>

text \<open>
  \<open>stats_add_counter\<close> returns the cluster pointer, what it wrote to \<open>*new\<close> (\<open>None\<close>
  when it returned before writing) and the state.
\<close>

definition stats_add_counter ::
  "int \<Rightarrow> int \<Rightarrow> string option \<Rightarrow> string option \<Rightarrow> stats_state
     \<Rightarrow> cluster_ptr \<times> bool option \<times> stats_state" where
  "stats_add_counter stats_level src id_p instance_p s =
     (if \<not> stats_check_level s stats_level then (None, None, s)
      else
        let key = (src, str_or_empty id_p, str_or_empty instance_p) in
        case g_hash_table_lookup (counter_hash s) key of
          None \<Rightarrow>
            (Some key, Some True,
             s\<lparr>counter_hash := g_hash_table_insert (counter_hash s)
                  (g_new0_StatsCluster\<lparr>source := src, id_str := str_or_empty id_p,
                     instance_str := str_or_empty instance_p, ref_cnt := 1\<rparr>)\<rparr>)
        | Some sc \<Rightarrow>
            (Some key, Some (ref_cnt sc = 0),
             s\<lparr>counter_hash :=
                  cluster_update key (\<lambda>c. c\<lparr>ref_cnt := ref_cnt c + 1\<rparr>) (counter_hash s)\<rparr>))"

definition stats_register_counter ::
  "int \<Rightarrow> int \<Rightarrow> string option \<Rightarrow> string option \<Rightarrow> StatsCounterType \<Rightarrow> stats_state
     \<Rightarrow> error + (counter_ptr \<times> stats_state)" where
  "stats_register_counter stats_level src id_p instance_p type s =
     (if \<not> stats_locked s then Inl AssertionFailed
      else if \<not> type < SC_TYPE_MAX then Inl AssertionFailed
      else
        case stats_add_counter stats_level src id_p instance_p s of
          (None, _, s') \<Rightarrow> Inr (None, s')
        | (Some key, _, s') \<Rightarrow>
            Inr (Some (key, type),
                 s'\<lparr>counter_hash :=
                      cluster_update key (\<lambda>c. c\<lparr>live_mask := live_mask c OR type_bit type\<rparr>)
                        (counter_hash s')\<rparr>))"

text \<open>
  \<open>local_new\<close> is not initialised, and \<open>stats_add_counter\<close> leaves it alone when the
  level gate refuses: \<open>local_new0\<close> is the value the variable happens to hold. The
  result is the returned cluster pointer, \<open>*counter\<close> and \<open>*new\<close>; both out-pointers are
  taken to be valid, as the unconditional stores to them require. The cluster that
  \<open>stats_add_counter\<close> returns is in the table, so the read of \<open>sc->dynamic\<close> finds it.
\<close>

definition stats_register_dynamic_counter ::
  "int \<Rightarrow> int \<Rightarrow> string option \<Rightarrow> string option \<Rightarrow> StatsCounterType \<Rightarrow> bool \<Rightarrow> stats_state
     \<Rightarrow> error + ((cluster_ptr \<times> counter_ptr \<times> bool) \<times> stats_state)" where
  "stats_register_dynamic_counter stats_level src id_p instance_p type local_new0 s =
     (if \<not> stats_locked s then Inl AssertionFailed
      else if \<not> type < SC_TYPE_MAX then Inl AssertionFailed
      else
        case stats_add_counter stats_level src id_p instance_p s of
          (sc_p, written, s') \<Rightarrow>
            let local_new = (case written of None \<Rightarrow> local_new0 | Some b \<Rightarrow> b) in
            (case sc_p of
               None \<Rightarrow> Inr ((None, None, local_new), s')
             | Some key \<Rightarrow>
                 (case g_hash_table_lookup (counter_hash s') key of
                    None \<Rightarrow> Inl DanglingPointer
                  | Some sc \<Rightarrow>
                      if \<not> local_new \<and> \<not> dynamic sc then Inl AssertionFailed
                      else
                        Inr ((Some key, Some (key, type), local_new),
                             s'\<lparr>counter_hash :=
                                  cluster_update key
                                    (\<lambda>c. c\<lparr>dynamic := True,
                                            live_mask := live_mask c OR type_bit type\<rparr>)
                                    (counter_hash s')\<rparr>))))"

definition stats_register_associated_counter ::
  "cluster_ptr \<Rightarrow> StatsCounterType \<Rightarrow> stats_state \<Rightarrow> error + (counter_ptr \<times> stats_state)" where
  "stats_register_associated_counter sc_p type s =
     (if \<not> stats_locked s then Inl AssertionFailed
      else
        case sc_p of
          None \<Rightarrow> Inr (None, s)
        | Some key \<Rightarrow>
            (case g_hash_table_lookup (counter_hash s) key of
               None \<Rightarrow> Inl DanglingPointer
             | Some sc \<Rightarrow>
                 if \<not> dynamic sc then Inl AssertionFailed
                 else
                   Inr (Some (key, type),
                        s\<lparr>counter_hash :=
                             cluster_update key
                               (\<lambda>c. c\<lparr>live_mask := live_mask c OR type_bit type,
                                       ref_cnt := ref_cnt c + 1\<rparr>)
                               (counter_hash s)\<rparr>)))"

text \<open>The result of \<open>stats_unregister_counter\<close> is \<open>*counter\<close> after the call.\<close>

definition stats_unregister_counter ::
  "int \<Rightarrow> string option \<Rightarrow> string option \<Rightarrow> StatsCounterType \<Rightarrow> counter_ptr \<Rightarrow> stats_state
     \<Rightarrow> error + (counter_ptr \<times> stats_state)" where
  "stats_unregister_counter src id_p instance_p type counter s =
     (if \<not> stats_locked s then Inl AssertionFailed
      else if counter = None then Inr (None, s)
      else
        let key = (src, str_or_empty id_p, str_or_empty instance_p) in
        case g_hash_table_lookup (counter_hash s) key of
          None \<Rightarrow> Inl AssertionFailed
        | Some sc \<Rightarrow>
            if live_mask sc AND type_bit type \<noteq> 0 \<and> Some (cluster_key sc, type) = counter
            then Inr (None,
                      s\<lparr>counter_hash :=
                           cluster_update key (\<lambda>c. c\<lparr>ref_cnt := ref_cnt c - 1\<rparr>)
                             (counter_hash s)\<rparr>)
            else Inl AssertionFailed)"

definition stats_unregister_dynamic_counter ::
  "cluster_ptr \<Rightarrow> StatsCounterType \<Rightarrow> counter_ptr \<Rightarrow> stats_state \<Rightarrow> error + stats_state" where
  "stats_unregister_dynamic_counter sc_p type counter s =
     (if \<not> stats_locked s then Inl AssertionFailed
      else
        case sc_p of
          None \<Rightarrow> Inr s
        | Some key \<Rightarrow>
            (case g_hash_table_lookup (counter_hash s) key of
               None \<Rightarrow> Inl DanglingPointer
             | Some sc \<Rightarrow>
                 if live_mask sc AND type_bit type \<noteq> 0 \<and> Some (cluster_key sc, type) = counter
                 then Inr (s\<lparr>counter_hash :=
                               cluster_update key (\<lambda>c. c\<lparr>ref_cnt := ref_cnt c - 1\<rparr>)
                                 (counter_hash s)\<rparr>)
                 else Inl AssertionFailed))"

subsection \<open>Iteration\<close>

text \<open>
  A visitor reads the cluster it is given and threads its \<open>user_data\<close>; it may abort.
  The remove variant also returns whether the table drops the cluster (which frees it).
\<close>

fun g_hash_table_foreach ::
  "(StatsCluster \<Rightarrow> 'u \<Rightarrow> error + 'u) \<Rightarrow> StatsCluster list \<Rightarrow> 'u \<Rightarrow> error + 'u" where
  "g_hash_table_foreach func [] u = Inr u"
| "g_hash_table_foreach func (sc # rest) u =
     (case func sc u of
        Inl e \<Rightarrow> Inl e
      | Inr u' \<Rightarrow> g_hash_table_foreach func rest u')"

fun g_hash_table_foreach_remove ::
  "(StatsCluster \<Rightarrow> 'u \<Rightarrow> error + (bool \<times> 'u)) \<Rightarrow> StatsCluster list \<Rightarrow> 'u
     \<Rightarrow> error + (StatsCluster list \<times> 'u)" where
  "g_hash_table_foreach_remove func [] u = Inr ([], u)"
| "g_hash_table_foreach_remove func (sc # rest) u =
     (case func sc u of
        Inl e \<Rightarrow> Inl e
      | Inr (remove, u') \<Rightarrow>
          (case g_hash_table_foreach_remove func rest u' of
             Inl e \<Rightarrow> Inl e
           | Inr (rest', u'') \<Rightarrow> Inr (if remove then rest' else sc # rest', u'')))"

definition stats_foreach_cluster ::
  "(StatsCluster \<Rightarrow> 'u \<Rightarrow> error + 'u) \<Rightarrow> 'u \<Rightarrow> stats_state \<Rightarrow> error + 'u" where
  "stats_foreach_cluster func user_data s =
     (if \<not> stats_locked s then Inl AssertionFailed
      else g_hash_table_foreach func (counter_hash s) user_data)"

definition stats_foreach_cluster_remove ::
  "(StatsCluster \<Rightarrow> 'u \<Rightarrow> error + (bool \<times> 'u)) \<Rightarrow> 'u \<Rightarrow> stats_state
     \<Rightarrow> error + ('u \<times> stats_state)" where
  "stats_foreach_cluster_remove func user_data s =
     (case g_hash_table_foreach_remove func (counter_hash s) user_data of
        Inl e \<Rightarrow> Inl e
      | Inr (tbl', u') \<Rightarrow> Inr (u', s\<lparr>counter_hash := tbl'\<rparr>))"

text \<open>
  Modelled from the spec: \<open>stats_cluster_foreach_counter\<close> is defined in stats.h
  (absent); a cluster "exposes read-only iteration over (kind, cell) pairs whose bits
  are in \<open>live_mask\<close>". The visitor gets the cluster, the kind and the cell's value.
\<close>

fun foreach_counter_loop ::
  "(StatsCluster \<Rightarrow> StatsCounterType \<Rightarrow> int \<Rightarrow> 'u \<Rightarrow> error + 'u)
     \<Rightarrow> StatsCluster \<Rightarrow> StatsCounterType list \<Rightarrow> 'u \<Rightarrow> error + 'u" where
  "foreach_counter_loop func sc [] u = Inr u"
| "foreach_counter_loop func sc (type # types) u =
     (if live_mask sc AND type_bit type \<noteq> 0
      then (case func sc type (counters sc ! type) u of
              Inl e \<Rightarrow> Inl e
            | Inr u' \<Rightarrow> foreach_counter_loop func sc types u')
      else foreach_counter_loop func sc types u)"

definition stats_cluster_foreach_counter ::
  "StatsCluster \<Rightarrow> (StatsCluster \<Rightarrow> StatsCounterType \<Rightarrow> int \<Rightarrow> 'u \<Rightarrow> error + 'u) \<Rightarrow> 'u
     \<Rightarrow> error + 'u" where
  "stats_cluster_foreach_counter sc func user_data =
     foreach_counter_loop func sc [0..<SC_TYPE_MAX] user_data"

definition stats_foreach_counter ::
  "(StatsCluster \<Rightarrow> StatsCounterType \<Rightarrow> int \<Rightarrow> 'u \<Rightarrow> error + 'u) \<Rightarrow> 'u \<Rightarrow> stats_state
     \<Rightarrow> error + 'u" where
  "stats_foreach_counter func user_data s =
     (if \<not> stats_locked s then Inl AssertionFailed
      else stats_foreach_cluster (\<lambda>sc u. stats_cluster_foreach_counter sc func u) user_data s)"

subsection \<open>Names\<close>

definition tag_names :: "string list" where
  "tag_names = [''dropped'', ''processed'', ''stored'', ''suppressed'', ''stamp'']"

definition source_names :: "string list" where
  "source_names =
     [''none'', ''file'', ''pipe'', ''tcp'', ''udp'', ''tcp6'', ''udp6'', ''unix-stream'',
      ''unix-dgram'', ''syslog'', ''network'', ''internal'', ''logstore'', ''program'',
      ''sql'', ''sun-streams'', ''usertty'', ''group'', ''center'', ''host'', ''global'',
      ''mongodb'', ''class'', ''rule_id'', ''tag'', ''severity'', ''facility'', ''sender'',
      ''smtp'', ''amqp'', ''stomp'', ''redis'', ''snmp'']"

definition stats_get_direction_name :: "int \<Rightarrow> string" where
  "stats_get_direction_name src =
     (if src AND SCS_SOURCE \<noteq> 0 then ''src.''
      else if src AND SCS_DESTINATION \<noteq> 0 then ''dst.'' else [])"

text \<open>The two tables have \<open>SCS_MAX\<close> and \<open>SC_TYPE_MAX\<close> entries; an index beyond them
  reads outside the array.\<close>

definition stats_get_source_name :: "int \<Rightarrow> error + string" where
  "stats_get_source_name src =
     (let i = src AND SCS_SOURCE_MASK in
      if 0 \<le> i \<and> i < SCS_MAX then Inr (source_names ! nat i) else Inl OutOfBounds)"

definition stats_get_tag_name :: "StatsCounterType \<Rightarrow> error + string" where
  "stats_get_tag_name type =
     (if type < SC_TYPE_MAX then Inr (tag_names ! type) else Inl OutOfBounds)"

definition g_snprintf :: "nat \<Rightarrow> string \<Rightarrow> string" where
  \<comment> \<open>what a buffer of \<open>buf_len\<close> bytes holds of the formatted text (one byte is the NUL)\<close>
  "g_snprintf buf_len formatted = take (buf_len - 1) formatted"

definition stats_get_direction_and_source_name :: "int \<Rightarrow> nat \<Rightarrow> error + string" where
  "stats_get_direction_and_source_name src buf_len =
     (if src AND SCS_SOURCE_MASK = SCS_GROUP then
        (if src AND SCS_SOURCE \<noteq> 0 then Inr ''source''
         else if src AND SCS_DESTINATION \<noteq> 0 then Inr ''destination''
         else Inl AssertionFailed)
      else
        (case stats_get_source_name src of
           Inl e \<Rightarrow> Inl e
         | Inr name \<Rightarrow> Inr (g_snprintf buf_len (stats_get_direction_name src @ name))))"

subsection \<open>Formatting a counter\<close>

fun u_dec :: "nat \<Rightarrow> string" where
  "u_dec n =
     (if n < 10 then [''0123456789'' ! n]
      else u_dec (n div 10) @ [''0123456789'' ! (n mod 10)])"

declare u_dec.simps [simp del]

text \<open>
  Modelled from the spec: \<open>stats_counter_get\<close> is an inline function of stats.h (absent)
  and loads the cell. The conversion \<open>%u\<close> prints its argument as an \<open>unsigned int\<close>,
  that is modulo \<open>2 ^ 32\<close>, in decimal.
\<close>

definition stats_counter_get :: "StatsCluster \<Rightarrow> StatsCounterType \<Rightarrow> int" where
  "stats_counter_get sc type = counters sc ! type"

definition printf_u :: "int \<Rightarrow> string" where
  "printf_u v = u_dec (nat (v mod 2 ^ 32))"

text \<open>
  Modelled from the spec: \<open>evt_rec_add_tag\<close> belongs to the event library (absent); it
  appends the tag to the event record. What the library does when the record is \<open>NULL\<close>
  is neither in the sources at hand nor in the specification, so it is a parameter of
  the model: the library either ignores a \<open>NULL\<close> record or dereferences it.
\<close>

datatype evt_null = EVT_NULL_IGNORED | EVT_NULL_DEREFERENCED

definition evt_rec_add_tag :: "evt_null \<Rightarrow> EVTREC option \<Rightarrow> EVTTAG \<Rightarrow> error + EVTREC option" where
  "evt_rec_add_tag lib e tag =
     (case e of
        Some r \<Rightarrow> Inr (Some (r\<lparr>ev_tags := ev_tags r @ [tag]\<rparr>))
      | None \<Rightarrow>
          (case lib of
             EVT_NULL_IGNORED \<Rightarrow> Inr None
           | EVT_NULL_DEREFERENCED \<Rightarrow> Inl NullPointer))"

text \<open>The tag that \<open>stats_log_format_counter\<close> builds with \<open>evt_tag_printf\<close> and the format
  \<open>"%s(%s%s%s)=%u"\<close>; the buffer \<open>buf\<close> has 32 bytes.\<close>

definition stats_log_format_tag :: "StatsCluster \<Rightarrow> StatsCounterType \<Rightarrow> error + EVTTAG" where
  "stats_log_format_tag sc type =
     (case stats_get_tag_name type of
        Inl e \<Rightarrow> Inl e
      | Inr tag_name \<Rightarrow>
          (case stats_get_direction_and_source_name (source sc) 32 of
             Inl e \<Rightarrow> Inl e
           | Inr dsn \<Rightarrow>
               Inr (evt_tag_printf tag_name
                      (dsn @ ''('' @ id_str sc
                         @ (if id_str sc \<noteq> [] \<and> instance_str sc \<noteq> [] then '','' else [])
                         @ instance_str sc @ '')='' @ printf_u (stats_counter_get sc type)))))"

definition stats_log_format_counter ::
  "evt_null \<Rightarrow> StatsCluster \<Rightarrow> StatsCounterType \<Rightarrow> int \<Rightarrow> EVTREC option
     \<Rightarrow> error + EVTREC option" where
  "stats_log_format_counter lib sc type item e =
     (case stats_log_format_tag sc type of
        Inl err \<Rightarrow> Inl err
      | Inr tag \<Rightarrow> evt_rec_add_tag lib e tag)"

definition stats_log_format_cluster ::
  "evt_null \<Rightarrow> StatsCluster \<Rightarrow> EVTREC option \<Rightarrow> error + EVTREC option" where
  "stats_log_format_cluster lib sc e =
     stats_cluster_foreach_counter sc (stats_log_format_counter lib) e"

subsection \<open>Expiry and the publish-and-prune pass\<close>

record StatsTimerState =
  now_sec :: int                    \<comment> \<open>\<open>now.tv_sec\<close>\<close>
  oldest_counter :: int
  dropped_counters :: int
  stats_event :: "EVTREC option"

text \<open>The functions below read the global \<open>stats_options\<close>; it is an argument of theirs.\<close>

definition stats_counter_is_expired ::
  "StatsOptions option \<Rightarrow> StatsCluster \<Rightarrow> int \<Rightarrow> error + bool" where
  "stats_counter_is_expired opts sc now =
     (if \<not> dynamic sc then Inr False
      else if ref_cnt sc > 0 then Inr False
      else if live_mask sc AND type_bit SC_TYPE_STAMP = 0 then Inr False
      else
        let tstamp = counters sc ! SC_TYPE_STAMP in
        case opts of
          None \<Rightarrow> Inl NullPointer
        | Some options \<Rightarrow> Inr (tstamp \<le> now - lifetime options))"

definition stats_prune_counter ::
  "StatsOptions option \<Rightarrow> StatsCluster \<Rightarrow> StatsTimerState \<Rightarrow> error + (bool \<times> StatsTimerState)" where
  "stats_prune_counter opts sc st =
     (case stats_counter_is_expired opts sc (now_sec st) of
        Inl e \<Rightarrow> Inl e
      | Inr expired \<Rightarrow>
          if expired then
            let tstamp = counters sc ! SC_TYPE_STAMP;
                st1 = (if oldest_counter st = 0 \<or> oldest_counter st > tstamp
                       then st\<lparr>oldest_counter := tstamp\<rparr> else st)
            in Inr (expired, st1\<lparr>dropped_counters := dropped_counters st1 + 1\<rparr>)
          else Inr (expired, st))"

text \<open>The cluster is formatted whether or not an event record was created: with
  publishing off, \<open>st->stats_event\<close> is \<open>NULL\<close> and is passed on as it is.\<close>

definition stats_format_and_prune_cluster ::
  "evt_null \<Rightarrow> StatsOptions option \<Rightarrow> StatsCluster \<Rightarrow> StatsTimerState
     \<Rightarrow> error + (bool \<times> StatsTimerState)" where
  "stats_format_and_prune_cluster lib opts sc st =
     (case stats_log_format_cluster lib sc (stats_event st) of
        Inl e \<Rightarrow> Inl e
      | Inr ev \<Rightarrow> stats_prune_counter opts sc (st\<lparr>stats_event := ev\<rparr>))"

text \<open>
  Modelled from the spec: \<open>msg_event_create\<close>, \<open>msg_event_send\<close> and \<open>msg_notice\<close> belong
  to the logging facility (absent). A record is created with its priority and title, a
  sent record reaches the facility, and a notice is a record created and sent at once.
\<close>

definition msg_event_create :: "evt_pri \<Rightarrow> string \<Rightarrow> EVTTAG list \<Rightarrow> EVTREC" where
  "msg_event_create pri desc tags = \<lparr>ev_pri = pri, ev_desc = desc, ev_tags = tags\<rparr>"

definition msg_event_send :: "EVTREC \<Rightarrow> stats_state \<Rightarrow> stats_state" where
  "msg_event_send e s = s\<lparr>msg_sent := msg_sent s @ [e]\<rparr>"

definition msg_notice :: "string \<Rightarrow> EVTTAG list \<Rightarrow> stats_state \<Rightarrow> stats_state" where
  "msg_notice desc tags s = msg_event_send (msg_event_create EVT_PRI_NOTICE desc tags) s"

text \<open>\<open>now\<close> is the second that \<open>cached_g_current_time\<close> reports.\<close>

definition stats_publish_and_prune_counters ::
  "evt_null \<Rightarrow> int \<Rightarrow> stats_state \<Rightarrow> error + stats_state" where
  "stats_publish_and_prune_counters lib now s =
     (case stats_options s of
        None \<Rightarrow> Inl NullPointer
      | Some options \<Rightarrow>
          let publish = (log_freq options > 0);
              st = \<lparr>now_sec = now, oldest_counter = 0, dropped_counters = 0,
                    stats_event =
                      (if publish then Some (msg_event_create EVT_PRI_INFO ''Log statistics'' [])
                       else None)\<rparr>
          in
          case stats_lock s of
            Inl e \<Rightarrow> Inl e
          | Inr s1 \<Rightarrow>
              (case stats_foreach_cluster_remove
                      (stats_format_and_prune_cluster lib (stats_options s1)) st s1 of
                 Inl e \<Rightarrow> Inl e
               | Inr (st', s2) \<Rightarrow>
                   let s3 = stats_unlock s2;
                       s4 = (if publish
                             then (case stats_event st' of
                                     Some ev \<Rightarrow> msg_event_send ev s3
                                   | None \<Rightarrow> s3)
                             else s3);
                       s5 = (if dropped_counters st' > 0
                             then msg_notice ''Pruning stats-counters have finished''
                                    [evt_tag_int ''dropped'' (dropped_counters st'),
                                     evt_tag_long ''oldest-timestamp'' (oldest_counter st')] s4
                             else s4)
                   in Inr s5))"

subsection \<open>The timer\<close>

text \<open>C's \<open>/\<close> on integers truncates towards zero.\<close>

definition c_div :: "int \<Rightarrow> int \<Rightarrow> int" where
  "c_div a b = (if (a < 0) = (b < 0) then \<bar>a\<bar> div \<bar>b\<bar> else - (\<bar>a\<bar> div \<bar>b\<bar>))"

text \<open>The value of an integer expression computed in a \<open>gint\<close>: 32 bits, two's complement.
  C leaves the overflow of a signed integer undefined; the model takes the result that
  wraps around.\<close>

definition gint_wrap :: "int \<Rightarrow> int" where
  "gint_wrap x = (x + 2 ^ 31) mod 2 ^ 32 - 2 ^ 31"

text \<open>\<open>iv_now\<close> is the current time of the event loop, in milliseconds; the product
  \<open>freq * 1000\<close> is a \<open>gint\<close> and wraps for a frequency above 2147483.\<close>

definition stats_timer_rearm :: "int \<Rightarrow> iv_timer \<Rightarrow> iv_timer" where
  "stats_timer_rearm iv_now timer =
     (let freq = cookie timer in
      if freq > 0 then timer\<lparr>expires := iv_now + gint_wrap (freq * 1000), registered := True\<rparr>
      else timer)"

definition stats_timer_init :: "iv_timer \<Rightarrow> int \<Rightarrow> iv_timer" where
  \<comment> \<open>\<open>IV_TIMER_INIT\<close> leaves the timer unregistered; the handler is \<open>stats_timer_elapsed\<close>\<close>
  "stats_timer_init timer freq = timer\<lparr>registered := False, handler := True, cookie := freq\<rparr>"

definition stats_timer_kill :: "iv_timer \<Rightarrow> iv_timer" where
  "stats_timer_kill timer =
     (if \<not> handler timer then timer
      else if registered timer then timer\<lparr>registered := False\<rparr>
      else timer)"

definition stats_timer_reinit :: "int \<Rightarrow> stats_state \<Rightarrow> error + stats_state" where
  "stats_timer_reinit iv_now s =
     (case stats_options s of
        None \<Rightarrow> Inl NullPointer
      | Some options \<Rightarrow>
          let freq0 = log_freq options;
              freq = (if freq0 = 0
                      then (if lifetime options \<le> 1 then 1 else c_div (lifetime options) 2)
                      else freq0)
          in Inr (s\<lparr>stats_timer :=
                       stats_timer_rearm iv_now
                         (stats_timer_init (stats_timer_kill (stats_timer s)) freq)\<rparr>))"

definition stats_timer_elapsed ::
  "evt_null \<Rightarrow> int \<Rightarrow> int \<Rightarrow> stats_state \<Rightarrow> error + stats_state" where
  "stats_timer_elapsed lib now iv_now s =
     (case stats_publish_and_prune_counters lib now s of
        Inl e \<Rightarrow> Inl e
      | Inr s' \<Rightarrow> Inr (s'\<lparr>stats_timer := stats_timer_rearm iv_now (stats_timer s')\<rparr>))"

definition stats_reinit :: "StatsOptions option \<Rightarrow> int \<Rightarrow> stats_state \<Rightarrow> error + stats_state" where
  \<comment> \<open>\<open>stats_syslog_reinit\<close> touches nothing of this state\<close>
  "stats_reinit options iv_now s = stats_timer_reinit iv_now (s\<lparr>stats_options := options\<rparr>)"

definition stats_options_defaults :: StatsOptions where
  "stats_options_defaults = \<lparr>level = 0, log_freq = 600, lifetime = 600\<rparr>"

text \<open>The globals after \<open>stats_init\<close> in a fresh process.\<close>

definition stats_init :: stats_state where
  "stats_init =
     \<lparr>stats_options = None, counter_hash = [], stats_locked = False,
      stats_timer = \<lparr>handler = False, cookie = 0, registered = False, expires = 0\<rparr>,
      msg_sent = []\<rparr>"

subsection \<open>The expiry condition, and example states\<close>

text \<open>The condition under which \<open>stats_counter_is_expired\<close> answers \<open>TRUE\<close>.\<close>

definition is_expired :: "StatsOptions \<Rightarrow> int \<Rightarrow> StatsCluster \<Rightarrow> bool" where
  "is_expired options now sc \<longleftrightarrow>
     dynamic sc \<and> \<not> ref_cnt sc > 0 \<and> bit (live_mask sc) SC_TYPE_STAMP
       \<and> counters sc ! SC_TYPE_STAMP \<le> now - lifetime options"

text \<open>
  A registry with a static cluster \<open>(global, "", "")\<close> and a dynamic cluster
  \<open>(sender, "10.0.0.1", "")\<close> stamped at second 100, both without outstanding
  registrations.
\<close>

definition ex_options :: StatsOptions where
  "ex_options = \<lparr>level = 1, log_freq = 600, lifetime = 600\<rparr>"

definition ex_static :: StatsCluster where
  "ex_static = \<lparr>counters = [0, 1, 0, 0, 0], ref_cnt = 0, source = 20, id_str = [],
                 instance_str = [], live_mask = 2, dynamic = False\<rparr>"

definition ex_sender :: StatsCluster where
  "ex_sender = \<lparr>counters = [0, 1, 0, 0, 100], ref_cnt = 0, source = 27, id_str = ''10.0.0.1'',
                 instance_str = [], live_mask = 18, dynamic = True\<rparr>"

definition ex_state :: stats_state where
  "ex_state = stats_init\<lparr>stats_options := Some ex_options, counter_hash := [ex_static, ex_sender]\<rparr>"

definition ex_locked :: stats_state where
  "ex_locked = ex_state\<lparr>stats_locked := True\<rparr>"

text \<open>The cluster that \<open>stats_add_counter\<close> allocates and inserts for a key it does not find.\<close>

definition new_cluster :: "int \<Rightarrow> string option \<Rightarrow> string option \<Rightarrow> StatsCluster" where
  "new_cluster src id_p instance_p =
     g_new0_StatsCluster\<lparr>source := src, id_str := str_or_empty id_p,
        instance_str := str_or_empty instance_p, ref_cnt := 1\<rparr>"

text \<open>A fresh registry with the lock held, and the example registry with one outstanding
  registration on the static cluster.\<close>

definition ex_fresh :: stats_state where
  "ex_fresh = stats_init\<lparr>stats_locked := True\<rparr>"

definition ex_held :: stats_state where
  "ex_held = ex_locked\<lparr>counter_hash := [ex_static\<lparr>ref_cnt := 1\<rparr>, ex_sender]\<rparr>"

subsection \<open>The published tag, in the words of the specification\<close>

text \<open>
  The text before the parenthesis: \<open>source\<close> or \<open>destination\<close> for the \<open>group\<close>
  meta-kind, according to the direction flag; otherwise the direction prefix
  (\<open>src.\<close>, \<open>dst.\<close> or nothing) followed by the name of the source enum.
\<close>

definition spec_dir_and_source :: "int \<Rightarrow> string" where
  "spec_dir_and_source src =
     (if src AND SCS_SOURCE_MASK = SCS_GROUP
      then (if src AND SCS_SOURCE \<noteq> 0 then ''source'' else ''destination'')
      else (if src AND SCS_SOURCE \<noteq> 0 then ''src.''
            else if src AND SCS_DESTINATION \<noteq> 0 then ''dst.'' else [])
           @ source_names ! nat (src AND SCS_SOURCE_MASK))"

text \<open>
  The value as claim C4 words it: \<open><dir-and-source>(<id>[,<instance>])=<value>\<close>, the
  comma and the instance both left out when the id or the instance is empty.
\<close>

definition claimed_tag_value :: "StatsCluster \<Rightarrow> StatsCounterType \<Rightarrow> string" where
  "claimed_tag_value sc type =
     spec_dir_and_source (source sc) @ ''('' @ id_str sc
       @ (if id_str sc = [] \<or> instance_str sc = [] then [] else '','' @ instance_str sc)
       @ '')='' @ printf_u (counters sc ! type)"

text \<open>
  The value with only the comma optional: the comma is left out when the id or the
  instance is empty, the instance is always printed.
\<close>

definition spec_tag_value :: "StatsCluster \<Rightarrow> StatsCounterType \<Rightarrow> string" where
  "spec_tag_value sc type =
     spec_dir_and_source (source sc) @ ''('' @ id_str sc
       @ (if id_str sc = [] \<or> instance_str sc = [] then [] else '','')
       @ instance_str sc
       @ '')='' @ printf_u (counters sc ! type)"

text \<open>A packed \<open>source\<close> that can be formatted: the enum value is inside \<open>source_names\<close>,
  and the \<open>group\<close> meta-kind carries a direction flag.\<close>

definition source_ok :: "int \<Rightarrow> bool" where
  "source_ok src \<longleftrightarrow>
     src AND SCS_SOURCE_MASK < SCS_MAX
     \<and> (src AND SCS_SOURCE_MASK \<noteq> SCS_GROUP \<or> src AND SCS_SOURCE \<noteq> 0 \<or> src AND SCS_DESTINATION \<noteq> 0)"

text \<open>Clusters as the daemon registers them: \<open>(center, NULL, "received")\<close> and the file
  destination \<open>(file | destination, "dst-access", "/var/log/a")\<close>.\<close>

definition ex_center :: StatsCluster where
  "ex_center = \<lparr>counters = [0, 3, 0, 0, 0], ref_cnt = 1, source = 18, id_str = [],
                 instance_str = ''received'', live_mask = 2, dynamic = False\<rparr>"

definition ex_file :: StatsCluster where
  "ex_file = \<lparr>counters = [0, 3, 0, 0, 0], ref_cnt = 1, source = 513, id_str = ''dst-access'',
               instance_str = ''/var/log/a'', live_mask = 2, dynamic = False\<rparr>"

subsection \<open>Auxiliary notions for the publish-and-prune pass\<close>

text \<open>The walk's state without its event record, the notice that the pass sends after
  the walk, the state the walk starts from, and the example registry with publishing
  switched off.\<close>

definition erase_event :: "StatsTimerState \<Rightarrow> StatsTimerState" where
  "erase_event st = st\<lparr>stats_event := None\<rparr>"

definition prune_notice :: "StatsTimerState \<Rightarrow> EVTREC list" where
  "prune_notice st =
     (if dropped_counters st > 0
      then [msg_event_create EVT_PRI_NOTICE ''Pruning stats-counters have finished''
              [evt_tag_int ''dropped'' (dropped_counters st),
               evt_tag_long ''oldest-timestamp'' (oldest_counter st)]]
      else [])"

definition timer_state0 :: "int \<Rightarrow> EVTREC option \<Rightarrow> StatsTimerState" where
  "timer_state0 now ev =
     \<lparr>now_sec = now, oldest_counter = 0, dropped_counters = 0, stats_event = ev\<rparr>"

definition ex_silent :: stats_state where
  "ex_silent = ex_state\<lparr>stats_options := Some (ex_options\<lparr>log_freq := 0\<rparr>)\<rparr>"

subsection \<open>Sequences of registry operations\<close>

text \<open>
  A client of the registry calls its operations one after the other and keeps the
  counters it was given: \<open>out\<close> is the list of its outstanding registrations, each the
  non-null \<open>StatsCounterItem *\<close> that a registration returned. A sequence is matched
  when every unregistration releases a counter that is outstanding at that point; a step
  is \<open>None\<close> when the call aborts or the sequence is not matched.
\<close>

type_synonym handle = "stats_key \<times> StatsCounterType"

datatype stats_op =
  OP_lock
| OP_unlock
| OP_reinit StatsOptions int
| OP_register int int "string option" "string option" StatsCounterType
| OP_register_dynamic int int "string option" "string option" StatsCounterType bool
| OP_register_associated cluster_ptr StatsCounterType
| OP_unregister int "string option" "string option" StatsCounterType counter_ptr
| OP_unregister_dynamic cluster_ptr StatsCounterType counter_ptr
| OP_publish_and_prune int

definition held :: "counter_ptr \<Rightarrow> handle list" where
  "held counter = (case counter of None \<Rightarrow> [] | Some h \<Rightarrow> [h])"

fun client_step ::
  "evt_null \<Rightarrow> stats_op \<Rightarrow> stats_state \<times> handle list \<Rightarrow> (stats_state \<times> handle list) option" where
  "client_step lib OP_lock (s, out) =
     (case stats_lock s of Inl e \<Rightarrow> None | Inr s' \<Rightarrow> Some (s', out))"
| "client_step lib OP_unlock (s, out) =
     (if stats_locked s then Some (stats_unlock s, out) else None)"
| "client_step lib (OP_reinit options iv_now) (s, out) =
     (case stats_reinit (Some options) iv_now s of Inl e \<Rightarrow> None | Inr s' \<Rightarrow> Some (s', out))"
| "client_step lib (OP_register stats_level src id_p instance_p type) (s, out) =
     (case stats_register_counter stats_level src id_p instance_p type s of
        Inl e \<Rightarrow> None
      | Inr (counter, s') \<Rightarrow> Some (s', held counter @ out))"
| "client_step lib (OP_register_dynamic stats_level src id_p instance_p type local_new0) (s, out) =
     (case stats_register_dynamic_counter stats_level src id_p instance_p type local_new0 s of
        Inl e \<Rightarrow> None
      | Inr ((sc_p, counter, new), s') \<Rightarrow> Some (s', held counter @ out))"
| "client_step lib (OP_register_associated sc_p type) (s, out) =
     (case stats_register_associated_counter sc_p type s of
        Inl e \<Rightarrow> None
      | Inr (counter, s') \<Rightarrow> Some (s', held counter @ out))"
| "client_step lib (OP_unregister src id_p instance_p type counter) (s, out) =
     (case counter of
        None \<Rightarrow>
          (case stats_unregister_counter src id_p instance_p type None s of
             Inl e \<Rightarrow> None
           | Inr (c', s') \<Rightarrow> Some (s', out))
      | Some h \<Rightarrow>
          if h \<in> set out then
            (case stats_unregister_counter src id_p instance_p type (Some h) s of
               Inl e \<Rightarrow> None
             | Inr (c', s') \<Rightarrow> Some (s', remove1 h out))
          else None)"
| "client_step lib (OP_unregister_dynamic sc_p type counter) (s, out) =
     (case sc_p of
        None \<Rightarrow>
          (case stats_unregister_dynamic_counter None type counter s of
             Inl e \<Rightarrow> None
           | Inr s' \<Rightarrow> Some (s', out))
      | Some key \<Rightarrow>
          (case counter of
             None \<Rightarrow> None
           | Some h \<Rightarrow>
               if h \<in> set out then
                 (case stats_unregister_dynamic_counter (Some key) type (Some h) s of
                    Inl e \<Rightarrow> None
                  | Inr s' \<Rightarrow> Some (s', remove1 h out))
               else None))"
| "client_step lib (OP_publish_and_prune now) (s, out) =
     (case stats_publish_and_prune_counters lib now s of
        Inl e \<Rightarrow> None
      | Inr s' \<Rightarrow> Some (s', out))"

fun run_ops ::
  "evt_null \<Rightarrow> stats_op list \<Rightarrow> stats_state \<times> handle list
     \<Rightarrow> (stats_state \<times> handle list) option" where
  "run_ops lib [] c = Some c"
| "run_ops lib (opn # ops) c =
     (case client_step lib opn c of None \<Rightarrow> None | Some c' \<Rightarrow> run_ops lib ops c')"

text \<open>The number of outstanding registrations on the cluster of a key.\<close>

definition outstanding :: "handle list \<Rightarrow> stats_key \<Rightarrow> nat" where
  "outstanding out key = length (filter (\<lambda>h. fst h = key) out)"

text \<open>
  The invariant of the registry and its clients: one cluster per key, \<open>ref_cnt\<close> counts
  the outstanding registrations, and every outstanding counter belongs to a cluster of
  the table whose \<open>live_mask\<close> has its bit.
\<close>

definition registry_inv :: "stats_state \<Rightarrow> handle list \<Rightarrow> bool" where
  "registry_inv s out \<longleftrightarrow>
     distinct (map cluster_key (counter_hash s))
     \<and> (\<forall>sc\<in>set (counter_hash s). ref_cnt sc = int (outstanding out (cluster_key sc)))
     \<and> (\<forall>h\<in>set out. \<exists>sc\<in>set (counter_hash s). cluster_key sc = fst h \<and> bit (live_mask sc) (snd h))"

text \<open>A matched sequence: a dynamic \<open>processed\<close> counter with an associated stamp that is
  released again, and a static counter registered and released; and its final table.\<close>

definition ex_key :: stats_key where
  "ex_key = (27, ''10.0.0.1'', [])"

definition ex_ops :: "stats_op list" where
  "ex_ops =
     [OP_reinit ex_options 0, OP_lock,
      OP_register_dynamic 0 27 (Some ''10.0.0.1'') None SC_TYPE_PROCESSED False,
      OP_register_associated (Some ex_key) SC_TYPE_STAMP,
      OP_unregister_dynamic (Some ex_key) SC_TYPE_STAMP (Some (ex_key, SC_TYPE_STAMP)),
      OP_register 1 20 None None SC_TYPE_PROCESSED,
      OP_unregister 20 None None SC_TYPE_PROCESSED (Some ((20, [], []), SC_TYPE_PROCESSED)),
      OP_unlock]"

definition ex_final :: "StatsCluster list" where
  "ex_final =
     [\<lparr>counters = [0, 0, 0, 0, 0], ref_cnt = 1, source = 27, id_str = ''10.0.0.1'',
       instance_str = [], live_mask = 18, dynamic = True\<rparr>,
      \<lparr>counters = [0, 0, 0, 0, 0], ref_cnt = 0, source = 20, id_str = [],
       instance_str = [], live_mask = 2, dynamic = False\<rparr>]"

section \<open>Properties\<close>

subsection \<open>Lookup and update\<close>

lemma stats_counter_equal_iff [simp]: "stats_counter_equal k1 k2 \<longleftrightarrow> k1 = k2"
  by (auto simp: stats_counter_equal_def prod_eq_iff)

lemma lookup_SomeD: "g_hash_table_lookup tbl key = Some sc \<Longrightarrow> sc \<in> set tbl \<and> cluster_key sc = key"
  by (induction tbl) (auto split: if_splits)

lemma lookup_None_iff: "g_hash_table_lookup tbl key = None \<longleftrightarrow> key \<notin> cluster_key ` set tbl"
  by (induction tbl) auto

lemma lookup_distinct:
  "distinct (map cluster_key tbl) \<Longrightarrow> sc \<in> set tbl \<Longrightarrow> g_hash_table_lookup tbl (cluster_key sc) = Some sc"
  by (induction tbl) (auto simp: image_iff)

lemma cluster_update_keys:
  "(\<And>c. cluster_key (f c) = cluster_key c) \<Longrightarrow> map cluster_key (cluster_update key f tbl) = map cluster_key tbl"
  by (induction tbl) auto

lemma map_other_key:
  "k \<notin> cluster_key ` set tbl \<Longrightarrow> map (\<lambda>c. if cluster_key c = k then f c else c) tbl = tbl"
  by (induction tbl) auto

lemma cluster_update_distinct:
  "distinct (map cluster_key tbl) \<Longrightarrow>
   cluster_update key f tbl = map (\<lambda>c. if cluster_key c = key then f c else c) tbl"
proof (induction tbl)
  case Nil
  show ?case by simp
next
  case (Cons a tbl)
  show ?case
  proof (cases "cluster_key a = key")
    case True
    with Cons.prems have "key \<notin> cluster_key ` set tbl" by auto
    then show ?thesis using True by (simp add: map_other_key)
  next
    case False
    with Cons show ?thesis by simp
  qed
qed

lemma lookup_cluster_update:
  "(\<And>c. cluster_key (f c) = cluster_key c) \<Longrightarrow>
   g_hash_table_lookup (cluster_update key f tbl) k =
     (if k = key then map_option f (g_hash_table_lookup tbl k) else g_hash_table_lookup tbl k)"
  by (induction tbl) auto

lemma lookup_insert:
  "g_hash_table_lookup (g_hash_table_insert tbl sc) k =
     (case g_hash_table_lookup tbl k of Some c \<Rightarrow> Some c
      | None \<Rightarrow> if cluster_key sc = k then Some sc else None)"
  by (induction tbl) (auto simp: g_hash_table_insert_def)

lemma type_bit_test: "(m AND type_bit t = 0) = (\<not> bit m t)"
  by (simp add: type_bit_def bit_iff_and_push_bit_not_eq_0)

subsection \<open>Evaluation on concrete states\<close>

lemmas eval_defs =
  stats_publish_and_prune_counters_def stats_lock_def stats_unlock_def
  stats_foreach_cluster_remove_def stats_format_and_prune_cluster_def
  stats_log_format_cluster_def stats_cluster_foreach_counter_def stats_log_format_counter_def
  stats_log_format_tag_def stats_get_tag_name_def stats_get_direction_and_source_name_def
  stats_get_source_name_def stats_get_direction_name_def g_snprintf_def printf_u_def
  stats_counter_get_def evt_rec_add_tag_def stats_prune_counter_def stats_counter_is_expired_def
  msg_event_create_def msg_event_send_def msg_notice_def type_bit_def
  SC_TYPE_MAX_def SC_TYPE_STAMP_def SCS_SOURCE_def SCS_DESTINATION_def SCS_SOURCE_MASK_def
  SCS_GROUP_def SCS_MAX_def tag_names_def source_names_def stats_init_def

lemma u_dec_numeral [simp]:
  "u_dec (numeral k) =
     (if numeral k < (10::nat) then [''0123456789'' ! numeral k]
      else u_dec (numeral k div 10) @ [''0123456789'' ! (numeral k mod 10)])"
  by (rule u_dec.simps)

lemma u_dec_0 [simp]: "u_dec 0 = ''0''"
  by (simp add: u_dec.simps)

lemma u_dec_1 [simp]: "u_dec (Suc 0) = ''1''"
  by (simp add: u_dec.simps)

lemmas ex_defs =
  ex_fresh_def ex_held_def ex_locked_def ex_state_def ex_options_def ex_static_def ex_sender_def
  stats_init_def

subsection \<open>The level gate\<close>

text \<open>
  Claim C2. A call of \<open>stats_register_counter\<close> or \<open>stats_register_dynamic_counter\<close>
  whose declared level exceeds \<open>options.level\<close> returns a null counter and leaves the
  registry as it was: no cluster is created and none is modified. (The call asserts
  first that the lock is held and the kind is in range.)
\<close>

theorem C2_level_gate:
  assumes "stats_options s = Some options" and "level options < stats_level"
  shows "stats_register_counter stats_level src id_p instance_p type s =
           (if stats_locked s \<and> type < SC_TYPE_MAX then Inr (None, s) else Inl AssertionFailed)
       \<and> stats_register_dynamic_counter stats_level src id_p instance_p type local_new0 s =
           (if stats_locked s \<and> type < SC_TYPE_MAX then Inr ((None, None, local_new0), s)
            else Inl AssertionFailed)"
  using assms
  by (simp add: stats_register_counter_def stats_register_dynamic_counter_def
        stats_add_counter_def stats_check_level_def)

theorem C2_level_gate_witness:
  "stats_register_counter 2 20 None None SC_TYPE_PROCESSED ex_locked = Inr (None, ex_locked)
   \<and> stats_register_dynamic_counter 2 27 (Some ''10.0.0.1'') None SC_TYPE_PROCESSED True ex_locked
       = Inr ((None, None, True), ex_locked)"
  using C2_level_gate [of ex_locked ex_options 2 20 None None SC_TYPE_PROCESSED True]
    C2_level_gate [of ex_locked ex_options 2 27 "Some ''10.0.0.1''" None SC_TYPE_PROCESSED True]
  by (simp add: ex_locked_def ex_state_def ex_options_def SC_TYPE_PROCESSED_def SC_TYPE_MAX_def)

subsection \<open>The timer frequency\<close>

lemma c_div_2_pos: "1 < l \<Longrightarrow> c_div l 2 = l div 2"
  by (simp add: c_div_def)

lemma max_1_half: "max 1 (c_div l 2) = (if l \<le> 1 then 1 else c_div l 2)"
proof (cases "l \<le> 1")
  case True
  have "c_div l 2 \<le> 1"
  proof (cases "l < 0")
    case True
    then have "c_div l 2 = - (\<bar>l\<bar> div 2)" by (simp add: c_div_def)
    then show ?thesis by simp
  next
    case False
    with \<open>l \<le> 1\<close> have "l = 0 \<or> l = 1" by arith
    then show ?thesis by (auto simp: c_div_def)
  qed
  with True show ?thesis by simp
next
  case False
  then have "c_div l 2 = l div 2" by (simp add: c_div_2_pos)
  with False show ?thesis by simp
qed

text \<open>
  Claim C8. The frequency that \<open>stats_timer_reinit\<close> stores in the timer is
  \<open>options.log_freq\<close> when that is not zero, and \<open>max(1, options.lifetime / 2)\<close>
  otherwise, with C's integer division; the maximum is the same with the division that
  rounds down.
\<close>

theorem C8_timer_frequency:
  assumes "stats_options s = Some options"
  shows "(\<exists>s'. stats_timer_reinit iv_now s = Inr s' \<and>
            cookie (stats_timer s') =
              (if log_freq options \<noteq> 0 then log_freq options
               else max 1 (c_div (lifetime options) 2)))
       \<and> max 1 (c_div (lifetime options) 2) = max 1 (lifetime options div 2)"
proof
  show "\<exists>s'. stats_timer_reinit iv_now s = Inr s' \<and>
            cookie (stats_timer s') =
              (if log_freq options \<noteq> 0 then log_freq options
               else max 1 (c_div (lifetime options) 2))"
    using assms
    by (simp add: stats_timer_reinit_def stats_timer_rearm_def stats_timer_init_def
          stats_timer_kill_def Let_def max_1_half)
next
  show "max 1 (c_div (lifetime options) 2) = max 1 (lifetime options div 2)"
  proof (cases "lifetime options \<le> 1")
    case True
    then have "lifetime options div 2 \<le> 0" by simp
    with True show ?thesis by (simp add: max_1_half)
  next
    case False
    then show ?thesis by (simp add: c_div_2_pos)
  qed
qed

theorem C8_timer_frequency_witness:
  "(\<exists>s'. stats_timer_reinit 0 ex_state = Inr s' \<and> cookie (stats_timer s') = 600)
   \<and> (\<exists>s'. stats_timer_reinit 0
              (ex_state\<lparr>stats_options := Some \<lparr>level = 0, log_freq = 0, lifetime = 7\<rparr>\<rparr>) = Inr s'
          \<and> cookie (stats_timer s') = 3)"
  using C8_timer_frequency [of ex_state ex_options 0]
    C8_timer_frequency [of "ex_state\<lparr>stats_options := Some \<lparr>level = 0, log_freq = 0, lifetime = 7\<rparr>\<rparr>"
      "\<lparr>level = 0, log_freq = 0, lifetime = 7\<rparr>" 0]
  by (simp add: ex_state_def ex_options_def c_div_def)

subsection \<open>Registration\<close>

lemma cluster_key_new_cluster [simp]:
  "cluster_key (new_cluster src id_p instance_p) = (src, str_or_empty id_p, str_or_empty instance_p)"
  by (simp add: new_cluster_def cluster_key_def g_new0_StatsCluster_def)

lemma cluster_key_update [simp]:
  "cluster_key (c\<lparr>ref_cnt := r\<rparr>) = cluster_key c"
  "cluster_key (c\<lparr>live_mask := m\<rparr>) = cluster_key c"
  "cluster_key (c\<lparr>dynamic := d\<rparr>) = cluster_key c"
  by (simp_all add: cluster_key_def)

lemma cluster_update_absent:
  "g_hash_table_lookup tbl key = None \<Longrightarrow> cluster_update key f tbl = tbl"
  by (induction tbl) (auto split: if_splits)

lemma cluster_update_insert:
  "g_hash_table_lookup tbl key = None \<Longrightarrow> cluster_key sc = key \<Longrightarrow>
   cluster_update key f (g_hash_table_insert tbl sc) = tbl @ [f sc]"
  by (induction tbl) (auto simp: g_hash_table_insert_def split: if_splits)

lemma cluster_update_twice:
  "(\<And>c. cluster_key (f c) = cluster_key c) \<Longrightarrow>
   cluster_update key g (cluster_update key f tbl) = cluster_update key (\<lambda>c. g (f c)) tbl"
  by (induction tbl) auto

lemma bit_or_type_bit: "bit (m OR type_bit t) n \<longleftrightarrow> bit m n \<or> n = t"
  by (auto simp: type_bit_def bit_or_iff bit_exp_iff)

lemma stats_add_counter_pass:
  assumes "stats_check_level s stats_level"
  shows "stats_add_counter stats_level src id_p instance_p s =
     (case g_hash_table_lookup (counter_hash s) (src, str_or_empty id_p, str_or_empty instance_p) of
        None \<Rightarrow>
          (Some (src, str_or_empty id_p, str_or_empty instance_p), Some True,
           s\<lparr>counter_hash := g_hash_table_insert (counter_hash s) (new_cluster src id_p instance_p)\<rparr>)
      | Some sc \<Rightarrow>
          (Some (src, str_or_empty id_p, str_or_empty instance_p), Some (ref_cnt sc = 0),
           s\<lparr>counter_hash :=
                cluster_update (src, str_or_empty id_p, str_or_empty instance_p)
                  (\<lambda>c. c\<lparr>ref_cnt := ref_cnt c + 1\<rparr>) (counter_hash s)\<rparr>))"
  using assms by (simp add: stats_add_counter_def new_cluster_def Let_def split: option.split)

lemma stats_register_counter_pass:
  assumes "stats_locked s" "type < SC_TYPE_MAX" "stats_check_level s stats_level"
      and key: "key = (src, str_or_empty id_p, str_or_empty instance_p)"
  shows "stats_register_counter stats_level src id_p instance_p type s =
     Inr (Some (key, type),
       s\<lparr>counter_hash :=
         (case g_hash_table_lookup (counter_hash s) key of
            None \<Rightarrow> counter_hash s @ [(new_cluster src id_p instance_p)\<lparr>live_mask := type_bit type\<rparr>]
          | Some sc \<Rightarrow>
              cluster_update key
                (\<lambda>c. c\<lparr>ref_cnt := ref_cnt c + 1, live_mask := live_mask c OR type_bit type\<rparr>)
                (counter_hash s))\<rparr>)"
proof (cases "g_hash_table_lookup (counter_hash s) key")
  case None
  then show ?thesis
    using assms
    by (simp add: stats_register_counter_def stats_add_counter_pass cluster_update_insert)
       (simp add: new_cluster_def g_new0_StatsCluster_def)
next
  case (Some sc)
  then show ?thesis
    using assms
    by (simp add: stats_register_counter_def stats_add_counter_pass cluster_update_twice)
qed

lemma stats_register_dynamic_counter_pass:
  assumes "stats_locked s" "type < SC_TYPE_MAX" "stats_check_level s stats_level"
      and key: "key = (src, str_or_empty id_p, str_or_empty instance_p)"
  shows "stats_register_dynamic_counter stats_level src id_p instance_p type local_new0 s =
     (case g_hash_table_lookup (counter_hash s) key of
        None \<Rightarrow>
          Inr ((Some key, Some (key, type), True),
               s\<lparr>counter_hash := counter_hash s @
                    [(new_cluster src id_p instance_p)\<lparr>dynamic := True, live_mask := type_bit type\<rparr>]\<rparr>)
      | Some sc \<Rightarrow>
          if ref_cnt sc \<noteq> 0 \<and> \<not> dynamic sc then Inl AssertionFailed
          else
            Inr ((Some key, Some (key, type), ref_cnt sc = 0),
                 s\<lparr>counter_hash :=
                      cluster_update key
                        (\<lambda>c. c\<lparr>ref_cnt := ref_cnt c + 1, dynamic := True,
                                live_mask := live_mask c OR type_bit type\<rparr>)
                        (counter_hash s)\<rparr>))"
proof (cases "g_hash_table_lookup (counter_hash s) key")
  case None
  then show ?thesis
    using assms
    by (simp add: stats_register_dynamic_counter_def stats_add_counter_pass cluster_update_insert
          lookup_insert)
       (simp add: new_cluster_def g_new0_StatsCluster_def)
next
  case (Some sc)
  then show ?thesis
    using assms
    by (simp add: stats_register_dynamic_counter_def stats_add_counter_pass cluster_update_twice
          lookup_cluster_update)
qed

text \<open>
  Claim C10. While no options are installed (\<open>stats_options\<close> is \<open>NULL\<close>) the level check
  accepts exactly the declared level 0: \<open>stats_register_counter\<close> at level 0 returns a
  counter of a cluster that is in the table afterwards (created with \<open>ref_cnt = 1\<close> when
  the key was absent), and at any other level it returns a null counter and leaves the
  registry alone.
\<close>

theorem C10_no_options_level_zero:
  assumes "stats_options s = None" and "stats_locked s" and "type < SC_TYPE_MAX"
      and key: "key = (src, str_or_empty id_p, str_or_empty instance_p)"
  shows "(stats_check_level s lvl \<longleftrightarrow> lvl = 0)
       \<and> (lvl \<noteq> 0 \<longrightarrow> stats_register_counter lvl src id_p instance_p type s = Inr (None, s))
       \<and> (\<exists>s' sc. stats_register_counter 0 src id_p instance_p type s = Inr (Some (key, type), s')
             \<and> g_hash_table_lookup (counter_hash s') key = Some sc
             \<and> bit (live_mask sc) type
             \<and> (g_hash_table_lookup (counter_hash s) key = None \<longrightarrow>
                  counter_hash s' = counter_hash s @ [sc] \<and> ref_cnt sc = 1 \<and> \<not> dynamic sc))"
proof -
  have gate: "stats_check_level s lvl \<longleftrightarrow> lvl = 0" for lvl
    using assms(1) by (simp add: stats_check_level_def)
  have refused: "lvl \<noteq> 0 \<Longrightarrow> stats_register_counter lvl src id_p instance_p type s = Inr (None, s)"
    using assms(2,3) gate [of lvl]
    by (simp add: stats_register_counter_def stats_add_counter_def)
  have pass: "stats_check_level s 0" using gate by simp
  note reg = stats_register_counter_pass [OF assms(2,3) pass key]
  have accepted: "\<exists>s' sc. stats_register_counter 0 src id_p instance_p type s = Inr (Some (key, type), s')
             \<and> g_hash_table_lookup (counter_hash s') key = Some sc
             \<and> bit (live_mask sc) type
             \<and> (g_hash_table_lookup (counter_hash s) key = None \<longrightarrow>
                  counter_hash s' = counter_hash s @ [sc] \<and> ref_cnt sc = 1 \<and> \<not> dynamic sc)"
  proof (cases "g_hash_table_lookup (counter_hash s) key")
    case None
    then show ?thesis
      unfolding reg using key
      by (simp add: lookup_insert [unfolded g_hash_table_insert_def] cluster_key_def
            bit_or_type_bit [of 0, simplified])
         (simp add: new_cluster_def g_new0_StatsCluster_def)
  next
    case (Some sc)
    then show ?thesis
      unfolding reg by (simp add: lookup_cluster_update bit_or_type_bit)
  qed
  from gate refused accepted show ?thesis by blast
qed

theorem C10_no_options_witness:
  "stats_check_level ex_fresh 0 \<and> \<not> stats_check_level ex_fresh 1
   \<and> stats_register_counter 1 20 None None SC_TYPE_PROCESSED ex_fresh = Inr (None, ex_fresh)
   \<and> (\<exists>s' sc. stats_register_counter 0 20 None None SC_TYPE_PROCESSED ex_fresh
                  = Inr (Some ((20, [], []), SC_TYPE_PROCESSED), s')
          \<and> counter_hash s' = [sc] \<and> ref_cnt sc = 1 \<and> bit (live_mask sc) SC_TYPE_PROCESSED)"
  using C10_no_options_level_zero [of ex_fresh SC_TYPE_PROCESSED "(20, [], [])" 20 None None 1]
    C10_no_options_level_zero [of ex_fresh SC_TYPE_PROCESSED "(20, [], [])" 20 None None 0]
  by (simp add: ex_defs SC_TYPE_PROCESSED_def SC_TYPE_MAX_def str_or_empty_def) blast

text \<open>
  A registration that the level gate refuses returns no cluster, whatever the table
  holds under the key, and \<open>*new\<close> is the value the uninitialised local happened to
  hold; here the cluster exists with \<open>ref_cnt = 0\<close>.
\<close>

lemma stats_register_dynamic_counter_gated_example:
  "g_hash_table_lookup (counter_hash ex_locked) (27, ''10.0.0.1'', []) = Some ex_sender
   \<and> ref_cnt ex_sender = 0
   \<and> stats_register_dynamic_counter 2 27 (Some ''10.0.0.1'') None SC_TYPE_PROCESSED False ex_locked
       = Inr ((None, None, False), ex_locked)"
  by (simp add: ex_defs stats_register_dynamic_counter_def stats_add_counter_def
        stats_check_level_def cluster_key_def SC_TYPE_PROCESSED_def SC_TYPE_MAX_def)

text \<open>
  Claim C3. A dynamic registration (one that passes the level gate, with the lock held
  and the kind in range) of a key whose cluster exists with \<open>ref_cnt = 0\<close> returns that
  same cluster with \<open>ref_cnt = 1\<close>, with every bit of \<open>live_mask\<close> that was set still
  set, and with \<open>new = true\<close>; no cluster is created and no other cluster changes. The
  flag \<open>new\<close> of a registration that returns is true exactly when a cluster was created
  or the existing cluster had \<open>ref_cnt = 0\<close>.
\<close>

theorem C3_reregistration_revives:
  assumes "stats_locked s" and "type < SC_TYPE_MAX" and "stats_check_level s stats_level"
      and key: "key = (src, str_or_empty id_p, str_or_empty instance_p)"
  shows "(\<forall>sc. g_hash_table_lookup (counter_hash s) key = Some sc \<and> ref_cnt sc = 0 \<longrightarrow>
            (\<exists>s'. stats_register_dynamic_counter stats_level src id_p instance_p type local_new0 s
                     = Inr ((Some key, Some (key, type), True), s')
               \<and> g_hash_table_lookup (counter_hash s') key =
                    Some (sc\<lparr>ref_cnt := 1, dynamic := True,
                             live_mask := live_mask sc OR type_bit type\<rparr>)
               \<and> (\<forall>t. bit (live_mask sc) t \<longrightarrow> bit (live_mask sc OR type_bit type) t)
               \<and> map cluster_key (counter_hash s') = map cluster_key (counter_hash s)
               \<and> (\<forall>k. k \<noteq> key \<longrightarrow>
                     g_hash_table_lookup (counter_hash s') k = g_hash_table_lookup (counter_hash s) k)))
       \<and> (\<forall>sc_p cnt new s'.
            stats_register_dynamic_counter stats_level src id_p instance_p type local_new0 s
              = Inr ((sc_p, cnt, new), s') \<longrightarrow>
            (new \<longleftrightarrow> g_hash_table_lookup (counter_hash s) key = None
                    \<or> (\<exists>sc. g_hash_table_lookup (counter_hash s) key = Some sc \<and> ref_cnt sc = 0)))"
proof -
  note reg = stats_register_dynamic_counter_pass [OF assms(1,2,3) key, of local_new0]
  have revive: "\<exists>s'. stats_register_dynamic_counter stats_level src id_p instance_p type local_new0 s
                     = Inr ((Some key, Some (key, type), True), s')
               \<and> g_hash_table_lookup (counter_hash s') key =
                    Some (sc\<lparr>ref_cnt := 1, dynamic := True,
                             live_mask := live_mask sc OR type_bit type\<rparr>)
               \<and> (\<forall>t. bit (live_mask sc) t \<longrightarrow> bit (live_mask sc OR type_bit type) t)
               \<and> map cluster_key (counter_hash s') = map cluster_key (counter_hash s)
               \<and> (\<forall>k. k \<noteq> key \<longrightarrow>
                     g_hash_table_lookup (counter_hash s') k = g_hash_table_lookup (counter_hash s) k)"
    if "g_hash_table_lookup (counter_hash s) key = Some sc" and "ref_cnt sc = 0" for sc
    unfolding reg using that
    by (simp add: lookup_cluster_update cluster_update_keys bit_or_type_bit)
  have flag: "new \<longleftrightarrow> g_hash_table_lookup (counter_hash s) key = None
                    \<or> (\<exists>sc. g_hash_table_lookup (counter_hash s) key = Some sc \<and> ref_cnt sc = 0)"
    if "stats_register_dynamic_counter stats_level src id_p instance_p type local_new0 s
              = Inr ((sc_p, cnt, new), s')" for sc_p cnt new s'
    using that unfolding reg by (auto split: option.splits if_splits)
  from revive flag show ?thesis by blast
qed

theorem C3_reregistration_witness:
  "\<exists>s'. stats_register_dynamic_counter 1 27 (Some ''10.0.0.1'') None SC_TYPE_STORED False ex_locked
           = Inr ((Some (27, ''10.0.0.1'', []), Some ((27, ''10.0.0.1'', []), SC_TYPE_STORED), True), s')
      \<and> g_hash_table_lookup (counter_hash s') (27, ''10.0.0.1'', [])
           = Some (ex_sender\<lparr>ref_cnt := 1, dynamic := True, live_mask := 22\<rparr>)"
proof -
  have l: "stats_locked ex_locked" and t: "SC_TYPE_STORED < SC_TYPE_MAX"
    and g: "stats_check_level ex_locked 1"
    and k: "(27, ''10.0.0.1'', []) = (27, str_or_empty (Some ''10.0.0.1''), str_or_empty None)"
    by (simp_all add: ex_defs SC_TYPE_STORED_def SC_TYPE_MAX_def stats_check_level_def
          str_or_empty_def)
  have f: "g_hash_table_lookup (counter_hash ex_locked) (27, ''10.0.0.1'', []) = Some ex_sender
           \<and> ref_cnt ex_sender = 0"
    by (simp add: ex_defs cluster_key_def)
  have m: "live_mask ex_sender OR type_bit SC_TYPE_STORED = 22"
    by (simp add: ex_sender_def type_bit_def SC_TYPE_STORED_def)
  from C3_reregistration_revives [OF l t g k, of False] f m show ?thesis
    by auto
qed

text \<open>
  Claim C6, as stated, fails at a static cluster without outstanding registrations:
  \<open>stats_add_counter\<close> reports it as new, the assertion is skipped, and the cluster
  becomes dynamic.
\<close>

theorem C6_static_orphan_counterexample:
  "g_hash_table_lookup (counter_hash ex_locked) (20, [], []) = Some ex_static
   \<and> \<not> dynamic ex_static
   \<and> stats_register_dynamic_counter 0 20 None None SC_TYPE_PROCESSED False ex_locked
       = Inr ((Some (20, [], []), Some ((20, [], []), SC_TYPE_PROCESSED), True),
              ex_locked\<lparr>counter_hash := [ex_static\<lparr>ref_cnt := 1, dynamic := True\<rparr>, ex_sender]\<rparr>)"
  by (simp add: ex_defs stats_register_dynamic_counter_def stats_add_counter_def
        stats_check_level_def cluster_key_def SC_TYPE_PROCESSED_def SC_TYPE_MAX_def
        str_or_empty_def type_bit_def)

text \<open>
  Claim C6, amended. A call of \<open>stats_register_dynamic_counter\<close> that passes the level
  gate and whose key matches an existing cluster that is not dynamic is a fatal
  assertion failure when that cluster's \<open>ref_cnt\<close> is not 0; when its \<open>ref_cnt\<close> is 0
  the cluster is treated as new: the call succeeds with \<open>new = true\<close> and sets
  \<open>dynamic\<close>.
\<close>

theorem C6_static_cluster_dynamic_registration:
  assumes "stats_locked s" and "type < SC_TYPE_MAX" and "stats_check_level s stats_level"
      and key: "key = (src, str_or_empty id_p, str_or_empty instance_p)"
      and "g_hash_table_lookup (counter_hash s) key = Some sc" and "\<not> dynamic sc"
  shows "if ref_cnt sc \<noteq> 0
         then stats_register_dynamic_counter stats_level src id_p instance_p type local_new0 s
                = Inl AssertionFailed
         else (\<exists>s'. stats_register_dynamic_counter stats_level src id_p instance_p type local_new0 s
                       = Inr ((Some key, Some (key, type), True), s')
                 \<and> g_hash_table_lookup (counter_hash s') key =
                      Some (sc\<lparr>ref_cnt := 1, dynamic := True,
                               live_mask := live_mask sc OR type_bit type\<rparr>))"
  unfolding stats_register_dynamic_counter_pass [OF assms(1,2,3) key, of local_new0]
  using assms(5,6) by (simp add: lookup_cluster_update)

theorem C6_static_cluster_witness:
  "g_hash_table_lookup (counter_hash ex_held) (20, [], []) = Some (ex_static\<lparr>ref_cnt := 1\<rparr>)
   \<and> stats_register_dynamic_counter 0 20 None None SC_TYPE_PROCESSED False ex_held
       = Inl AssertionFailed"
proof -
  have l: "stats_locked ex_held" and t: "SC_TYPE_PROCESSED < SC_TYPE_MAX"
    and g: "stats_check_level ex_held 0"
    and k: "(20, [], []) = (20, str_or_empty None, str_or_empty None)"
    by (simp_all add: ex_defs SC_TYPE_PROCESSED_def SC_TYPE_MAX_def stats_check_level_def
          str_or_empty_def)
  have f: "g_hash_table_lookup (counter_hash ex_held) (20, [], []) = Some (ex_static\<lparr>ref_cnt := 1\<rparr>)"
    and d: "\<not> dynamic (ex_static\<lparr>ref_cnt := 1\<rparr>)"
    by (simp_all add: ex_defs cluster_key_def)
  from C6_static_cluster_dynamic_registration [OF l t g k f d, of False] f show ?thesis
    by simp
qed

subsection \<open>Formatting\<close>

lemma source_names_short: "i < 33 \<Longrightarrow> length (source_names ! i) \<le> 11"
proof -
  have "list_all (\<lambda>n. length n \<le> 11) source_names"
    by (simp add: source_names_def)
  moreover have "length source_names = 33"
    by (simp add: source_names_def)
  ultimately show "i < 33 \<Longrightarrow> length (source_names ! i) \<le> 11"
    by (simp add: list_all_length)
qed

lemma mask_nonneg: "0 \<le> src AND SCS_SOURCE_MASK"
  by (simp add: SCS_SOURCE_MASK_def)

lemma stats_get_direction_and_source_name_ok:
  assumes "source_ok src"
  shows "stats_get_direction_and_source_name src 32 = Inr (spec_dir_and_source src)"
proof (cases "src AND SCS_SOURCE_MASK = SCS_GROUP")
  case True
  with assms show ?thesis
    by (auto simp: stats_get_direction_and_source_name_def spec_dir_and_source_def source_ok_def)
next
  case False
  from assms have lt: "src AND SCS_SOURCE_MASK < 33"
    by (simp add: source_ok_def SCS_MAX_def)
  with mask_nonneg [of src] have "nat (src AND SCS_SOURCE_MASK) < 33" by simp
  then have len: "length (source_names ! nat (src AND SCS_SOURCE_MASK)) \<le> 11"
    by (rule source_names_short)
  have "length (stats_get_direction_name src) \<le> 4"
    by (simp add: stats_get_direction_name_def)
  with len have "length (stats_get_direction_name src @ source_names ! nat (src AND SCS_SOURCE_MASK)) \<le> 31"
    by simp
  then show ?thesis
    using False lt mask_nonneg [of src]
    by (simp add: stats_get_direction_and_source_name_def spec_dir_and_source_def
          stats_get_source_name_def g_snprintf_def stats_get_direction_name_def SCS_MAX_def Let_def)
qed

lemma stats_log_format_tag_ok:
  assumes "type < SC_TYPE_MAX" and "source_ok (source sc)"
  shows "stats_log_format_tag sc type =
           Inr (evt_tag_printf (tag_names ! type) (spec_tag_value sc type))"
  using assms
  by (simp add: stats_log_format_tag_def stats_get_tag_name_def
        stats_get_direction_and_source_name_ok spec_tag_value_def stats_counter_get_def)

lemma stats_log_format_counter_ok:
  assumes "type < SC_TYPE_MAX" and "source_ok (source sc)"
  shows "stats_log_format_counter lib sc type item (Some e) =
           Inr (Some (e\<lparr>ev_tags := ev_tags e @
                  [evt_tag_printf (tag_names ! type) (spec_tag_value sc type)]\<rparr>))"
  by (simp add: stats_log_format_counter_def stats_log_format_tag_ok [OF assms]
        evt_rec_add_tag_def)

lemma foreach_counter_loop_format:
  assumes "source_ok (source sc)" and "\<forall>t\<in>set ts. t < SC_TYPE_MAX"
  shows "foreach_counter_loop (stats_log_format_counter lib) sc ts (Some e) =
           Inr (Some (e\<lparr>ev_tags := ev_tags e @
                  map (\<lambda>t. evt_tag_printf (tag_names ! t) (spec_tag_value sc t))
                    (filter (\<lambda>t. bit (live_mask sc) t) ts)\<rparr>))"
  using assms(2)
proof (induction ts arbitrary: e)
  case Nil
  show ?case by simp
next
  case (Cons t ts)
  then have t: "t < SC_TYPE_MAX" and ts: "\<forall>t\<in>set ts. t < SC_TYPE_MAX" by simp_all
  show ?case
    by (simp add: Cons.IH [OF ts] stats_log_format_counter_ok [OF t assms(1)] type_bit_test)
qed

lemma stats_log_format_cluster_ok:
  assumes "source_ok (source sc)"
  shows "stats_log_format_cluster lib sc (Some e) =
           Inr (Some (e\<lparr>ev_tags := ev_tags e @
                  map (\<lambda>t. evt_tag_printf (tag_names ! t) (spec_tag_value sc t))
                    (filter (\<lambda>t. bit (live_mask sc) t) [0..<SC_TYPE_MAX])\<rparr>))"
  unfolding stats_log_format_cluster_def stats_cluster_foreach_counter_def
  by (rule foreach_counter_loop_format [OF assms]) simp

text \<open>
  Claim C4, as stated, fails at a cluster with an empty id and an instance: the code
  prints the instance (\<open>center(received)=3\<close>), the claim's form leaves it out.
\<close>

theorem C4_instance_printed_counterexample:
  "bit (live_mask ex_center) SC_TYPE_PROCESSED \<and> id_str ex_center = []
   \<and> stats_log_format_tag ex_center SC_TYPE_PROCESSED
       = Inr (evt_tag_printf ''processed'' ''center(received)=3'')
   \<and> claimed_tag_value ex_center SC_TYPE_PROCESSED = ''center()=3''"
  by (simp add: ex_center_def eval_defs claimed_tag_value_def spec_dir_and_source_def
        SC_TYPE_PROCESSED_def bit_iff_odd)

text \<open>
  Claim C4, amended. For every cluster and every kind whose bit is in \<open>live_mask\<close>, the
  published tag for that kind has the kind's canonical name and the value
  \<open><dir-and-source>(<id>[,]<instance>)=<value>\<close>, where the comma is left out whenever
  the id or the instance is empty and the instance is always printed; for the \<open>group\<close>
  meta-kind the first part is \<open>source\<close> or \<open>destination\<close> according to the direction
  flag. The value is the cell, printed by \<open>%u\<close>. (The source must be one that can be
  formatted; otherwise the code aborts or reads outside \<open>source_names\<close>.)
\<close>

theorem C4_published_tag_format:
  assumes "type < SC_TYPE_MAX" and "bit (live_mask sc) type" and "source_ok (source sc)"
  shows "stats_log_format_tag sc type =
           Inr (evt_tag_printf (tag_names ! type) (spec_tag_value sc type))
       \<and> (\<exists>tags. stats_log_format_cluster lib sc (Some e) = Inr (Some (e\<lparr>ev_tags := ev_tags e @ tags\<rparr>))
             \<and> evt_tag_printf (tag_names ! type) (spec_tag_value sc type) \<in> set tags)"
proof
  show "stats_log_format_tag sc type =
          Inr (evt_tag_printf (tag_names ! type) (spec_tag_value sc type))"
    by (rule stats_log_format_tag_ok [OF assms(1,3)])
next
  let ?tags = "map (\<lambda>t. evt_tag_printf (tag_names ! t) (spec_tag_value sc t))
                 (filter (\<lambda>t. bit (live_mask sc) t) [0..<SC_TYPE_MAX])"
  have "evt_tag_printf (tag_names ! type) (spec_tag_value sc type) \<in> set ?tags"
    using assms(1,2) by auto
  with stats_log_format_cluster_ok [OF assms(3), where e = e and lib = lib]
  show "\<exists>tags. stats_log_format_cluster lib sc (Some e) = Inr (Some (e\<lparr>ev_tags := ev_tags e @ tags\<rparr>))
             \<and> evt_tag_printf (tag_names ! type) (spec_tag_value sc type) \<in> set tags"
    by blast
qed

theorem C4_published_tag_witness:
  "stats_log_format_tag ex_file SC_TYPE_PROCESSED
     = Inr (evt_tag_printf ''processed'' ''dst.file(dst-access,/var/log/a)=3'')
   \<and> stats_log_format_tag ex_static SC_TYPE_PROCESSED
     = Inr (evt_tag_printf ''processed'' ''global()=1'')
   \<and> stats_log_format_tag (ex_file\<lparr>source := 273, instance_str := []\<rparr>) SC_TYPE_PROCESSED
     = Inr (evt_tag_printf ''processed'' ''source(dst-access)=3'')"
proof -
  have t: "SC_TYPE_PROCESSED < SC_TYPE_MAX"
    by (simp add: SC_TYPE_PROCESSED_def SC_TYPE_MAX_def)
  have b: "bit (live_mask ex_file) SC_TYPE_PROCESSED" "bit (live_mask ex_static) SC_TYPE_PROCESSED"
    "bit (live_mask (ex_file\<lparr>source := 273, instance_str := []\<rparr>)) SC_TYPE_PROCESSED"
    by (simp_all add: ex_file_def ex_static_def SC_TYPE_PROCESSED_def bit_iff_odd)
  have s: "source_ok (source ex_file)" "source_ok (source ex_static)"
    "source_ok (source (ex_file\<lparr>source := 273, instance_str := []\<rparr>))"
    by (simp_all add: ex_file_def ex_static_def source_ok_def SCS_SOURCE_MASK_def SCS_MAX_def
          SCS_GROUP_def SCS_SOURCE_def SCS_DESTINATION_def)
  have v: "spec_tag_value ex_file SC_TYPE_PROCESSED = ''dst.file(dst-access,/var/log/a)=3''"
    "spec_tag_value ex_static SC_TYPE_PROCESSED = ''global()=1''"
    "spec_tag_value (ex_file\<lparr>source := 273, instance_str := []\<rparr>) SC_TYPE_PROCESSED
       = ''source(dst-access)=3''"
    "tag_names ! SC_TYPE_PROCESSED = ''processed''"
    by (simp_all add: ex_file_def ex_static_def spec_tag_value_def spec_dir_and_source_def
          eval_defs SC_TYPE_PROCESSED_def)
  from C4_published_tag_format [OF t b(1) s(1)] C4_published_tag_format [OF t b(2) s(2)]
    C4_published_tag_format [OF t b(3) s(3)] v
  show ?thesis by simp
qed

subsection \<open>The iteration helpers\<close>

text \<open>
  Claim C7. Every iteration helper fails with an assertion failure when the lock is
  not held. \<open>stats_foreach_cluster\<close> and \<open>stats_foreach_counter\<close> do;
  \<open>stats_foreach_cluster_remove\<close> has no such assertion: called without the lock on the
  example registry it walks the table and removes the dynamic cluster.
\<close>

theorem C7_foreach_cluster_remove_unlocked:
  "\<not> stats_locked ex_state
   \<and> stats_foreach_cluster (\<lambda>sc (n::nat). Inr (Suc n)) 0 ex_state = Inl AssertionFailed
   \<and> stats_foreach_counter (\<lambda>sc type item (n::nat). Inr (Suc n)) 0 ex_state = Inl AssertionFailed
   \<and> stats_foreach_cluster_remove (\<lambda>sc (n::nat). Inr (dynamic sc, Suc n)) 0 ex_state
       = Inr (2, ex_state\<lparr>counter_hash := [ex_static]\<rparr>)"
  by (simp add: ex_defs stats_foreach_cluster_def stats_foreach_counter_def
        stats_foreach_cluster_remove_def)

subsection \<open>The publish-and-prune pass\<close>

text \<open>An event record that exists keeps its title and priority while tags are appended,
  whatever the library does with a \<open>NULL\<close> record.\<close>

lemma stats_log_format_counter_Some:
  "stats_log_format_counter lib sc type item (Some e) = Inr ev \<Longrightarrow>
     \<exists>e'. ev = Some e' \<and> ev_desc e' = ev_desc e \<and> ev_pri e' = ev_pri e"
  by (auto simp: stats_log_format_counter_def evt_rec_add_tag_def split: sum.splits)

lemma foreach_counter_loop_Some:
  "foreach_counter_loop (stats_log_format_counter lib) sc ts (Some e) = Inr ev \<Longrightarrow>
     \<exists>e'. ev = Some e' \<and> ev_desc e' = ev_desc e \<and> ev_pri e' = ev_pri e"
proof (induction ts arbitrary: e)
  case Nil
  then show ?case by auto
next
  case (Cons t ts)
  show ?case
  proof (cases "live_mask sc AND type_bit t \<noteq> 0")
    case False
    with Cons show ?thesis by simp
  next
    case True
    with Cons.prems obtain ev1 where
      f: "stats_log_format_counter lib sc t (counters sc ! t) (Some e) = Inr ev1" and
      r: "foreach_counter_loop (stats_log_format_counter lib) sc ts ev1 = Inr ev"
      by (auto split: sum.splits)
    from stats_log_format_counter_Some [OF f] obtain e1 where
      e1: "ev1 = Some e1" "ev_desc e1 = ev_desc e" "ev_pri e1 = ev_pri e" by blast
    from Cons.IH [of e1] r e1 show ?thesis by auto
  qed
qed

lemma stats_log_format_cluster_Some:
  "stats_log_format_cluster lib sc (Some e) = Inr ev \<Longrightarrow>
     \<exists>e'. ev = Some e' \<and> ev_desc e' = ev_desc e \<and> ev_pri e' = ev_pri e"
  unfolding stats_log_format_cluster_def stats_cluster_foreach_counter_def
  by (rule foreach_counter_loop_Some)

lemma stats_counter_is_expired_Some:
  "stats_counter_is_expired (Some options) sc now = Inr (is_expired options now sc)"
  by (auto simp: stats_counter_is_expired_def is_expired_def type_bit_test Let_def)

lemma stats_prune_counter_options:
  "stats_prune_counter (Some (options\<lparr>log_freq := f\<rparr>)) = stats_prune_counter (Some options)"
  by (intro ext) (simp add: stats_prune_counter_def stats_counter_is_expired_def)

lemma stats_format_and_prune_cluster_options:
  "stats_format_and_prune_cluster lib (Some (options\<lparr>log_freq := f\<rparr>)) =
     stats_format_and_prune_cluster lib (Some options)"
  by (intro ext) (simp add: stats_format_and_prune_cluster_def stats_prune_counter_options
        split: sum.split)

lemma stats_prune_counter_erase:
  "stats_prune_counter opts sc (st\<lparr>stats_event := ev\<rparr>) =
     map_sum id (\<lambda>(r, st'). (r, st'\<lparr>stats_event := ev\<rparr>)) (stats_prune_counter opts sc st)"
  by (simp add: stats_prune_counter_def Let_def split: sum.split)

lemma stats_prune_counter_effect:
  "stats_prune_counter (Some options) sc st = Inr (r, st') \<Longrightarrow>
     r = is_expired options (now_sec st) sc \<and> now_sec st' = now_sec st
       \<and> stats_event st' = stats_event st
       \<and> dropped_counters st' = dropped_counters st + (if r then 1 else 0)"
  by (auto simp: stats_prune_counter_def stats_counter_is_expired_Some Let_def split: if_splits)

lemma stats_format_and_prune_cluster_effect:
  assumes "stats_format_and_prune_cluster lib (Some options) sc st = Inr (r, st')"
  shows "r = is_expired options (now_sec st) sc \<and> now_sec st' = now_sec st
       \<and> dropped_counters st' = dropped_counters st + (if r then 1 else 0)
       \<and> (\<forall>e. stats_event st = Some e \<longrightarrow>
             (\<exists>e'. stats_event st' = Some e' \<and> ev_desc e' = ev_desc e \<and> ev_pri e' = ev_pri e))"
proof -
  from assms obtain ev where
    f: "stats_log_format_cluster lib sc (stats_event st) = Inr ev" and
    p: "stats_prune_counter (Some options) sc (st\<lparr>stats_event := ev\<rparr>) = Inr (r, st')"
    by (auto simp: stats_format_and_prune_cluster_def split: sum.splits)
  from stats_prune_counter_effect [OF p]
  have 1: "r = is_expired options (now_sec st) sc" "now_sec st' = now_sec st"
    "stats_event st' = ev" "dropped_counters st' = dropped_counters st + (if r then 1 else 0)"
    by simp_all
  have "\<exists>e'. stats_event st' = Some e' \<and> ev_desc e' = ev_desc e \<and> ev_pri e' = ev_pri e"
    if "stats_event st = Some e" for e
    using stats_log_format_cluster_Some [where sc = sc and e = e and ev = ev and lib = lib] f that 1(3) by simp
  with 1 show ?thesis by blast
qed

lemma foreach_remove_effect:
  assumes "g_hash_table_foreach_remove (stats_format_and_prune_cluster lib (Some options)) tbl st
             = Inr (tbl', st')"
  shows "tbl' = filter (\<lambda>c. \<not> is_expired options (now_sec st) c) tbl
       \<and> now_sec st' = now_sec st
       \<and> dropped_counters st' =
           dropped_counters st + int (length (filter (is_expired options (now_sec st)) tbl))
       \<and> (\<forall>e. stats_event st = Some e \<longrightarrow>
             (\<exists>e'. stats_event st' = Some e' \<and> ev_desc e' = ev_desc e \<and> ev_pri e' = ev_pri e))"
  using assms
proof (induction tbl arbitrary: st tbl' st')
  case Nil
  then show ?case by auto
next
  case (Cons a tbl)
  from Cons.prems obtain r st1 rest st2 where
    f: "stats_format_and_prune_cluster lib (Some options) a st = Inr (r, st1)" and
    rec: "g_hash_table_foreach_remove (stats_format_and_prune_cluster lib (Some options)) tbl st1
            = Inr (rest, st2)" and
    res: "tbl' = (if r then rest else a # rest)" "st' = st2"
    by (auto split: sum.splits prod.splits)
  note h = stats_format_and_prune_cluster_effect [OF f]
  note ih = Cons.IH [OF rec]
  from h have now1: "now_sec st1 = now_sec st" by simp
  have "tbl' = filter (\<lambda>c. \<not> is_expired options (now_sec st) c) (a # tbl)"
    using res h ih now1 by simp
  moreover have "now_sec st' = now_sec st"
    using res ih now1 by simp
  moreover have "dropped_counters st' =
      dropped_counters st + int (length (filter (is_expired options (now_sec st)) (a # tbl)))"
    using res h ih now1 by simp
  moreover have "\<exists>e'. stats_event st' = Some e' \<and> ev_desc e' = ev_desc e \<and> ev_pri e' = ev_pri e"
    if "stats_event st = Some e" for e
  proof -
    from h that obtain e1 where
      "stats_event st1 = Some e1" "ev_desc e1 = ev_desc e" "ev_pri e1 = ev_pri e" by blast
    with ih res show ?thesis by auto
  qed
  ultimately show ?case by blast
qed

lemma stats_publish_and_prune_counters_unfold:
  assumes "stats_options s = Some options"
  shows "stats_publish_and_prune_counters lib now s =
     (if stats_locked s then Inl Deadlock
      else
        case g_hash_table_foreach_remove (stats_format_and_prune_cluster lib (Some options))
               (counter_hash s)
               (timer_state0 now
                  (if log_freq options > 0
                   then Some (msg_event_create EVT_PRI_INFO ''Log statistics'' []) else None)) of
          Inl err \<Rightarrow> Inl err
        | Inr (tbl', st') \<Rightarrow>
            Inr (s\<lparr>counter_hash := tbl', stats_locked := False,
                   msg_sent := msg_sent s
                     @ (if log_freq options > 0
                        then (case stats_event st' of Some ev \<Rightarrow> [ev] | None \<Rightarrow> []) else [])
                     @ prune_notice st'\<rparr>))"
  using assms
  by (auto simp: stats_publish_and_prune_counters_def stats_lock_def stats_unlock_def
        stats_foreach_cluster_remove_def msg_notice_def msg_event_send_def Let_def
        prune_notice_def timer_state0_def
        split: sum.splits prod.splits option.splits)

text \<open>A publishing pass returns when the lock is free and the source of every cluster
  can be formatted.\<close>

lemma stats_format_and_prune_cluster_returns:
  assumes "source_ok (source sc)" and "stats_event st = Some e"
  shows "\<exists>r st'. stats_format_and_prune_cluster lib (Some options) sc st = Inr (r, st')"
  using stats_log_format_cluster_ok [OF assms(1), where lib = lib and e = e] assms(2)
  by (auto simp: stats_format_and_prune_cluster_def stats_prune_counter_def
        stats_counter_is_expired_Some Let_def)

lemma foreach_remove_returns:
  assumes "\<forall>sc\<in>set tbl. source_ok (source sc)" and "stats_event st = Some e"
  shows "\<exists>tbl' st'. g_hash_table_foreach_remove (stats_format_and_prune_cluster lib (Some options))
                       tbl st = Inr (tbl', st')"
  using assms
proof (induction tbl arbitrary: st e)
  case Nil
  show ?case by simp
next
  case (Cons a tbl)
  from Cons.prems have "source_ok (source a)" by simp
  from stats_format_and_prune_cluster_returns [OF this Cons.prems(2)] obtain r st1 where
    f: "stats_format_and_prune_cluster lib (Some options) a st = Inr (r, st1)" by blast
  from stats_format_and_prune_cluster_effect [OF f] Cons.prems(2) obtain e1 where
    e1: "stats_event st1 = Some e1" by blast
  from Cons.prems have "\<forall>sc\<in>set tbl. source_ok (source sc)" by simp
  from Cons.IH [OF this e1] obtain tbl' st' where
    "g_hash_table_foreach_remove (stats_format_and_prune_cluster lib (Some options)) tbl st1
       = Inr (tbl', st')" by blast
  with f show ?case by simp
qed

lemma stats_publish_and_prune_counters_returns:
  assumes "stats_options s = Some options" and "\<not> stats_locked s" and "0 < log_freq options"
      and "\<forall>sc\<in>set (counter_hash s). source_ok (source sc)"
  shows "\<exists>s'. stats_publish_and_prune_counters lib now s = Inr s'"
proof -
  have "stats_event (timer_state0 now (Some (msg_event_create EVT_PRI_INFO ''Log statistics'' [])))
          = Some (msg_event_create EVT_PRI_INFO ''Log statistics'' [])"
    by (simp add: timer_state0_def)
  from foreach_remove_returns [OF assms(4) this] obtain tbl' st' where
    "g_hash_table_foreach_remove (stats_format_and_prune_cluster lib (Some options))
       (counter_hash s)
       (timer_state0 now (Some (msg_event_create EVT_PRI_INFO ''Log statistics'' [])))
       = Inr (tbl', st')" by blast
  with assms(2,3) show ?thesis
    by (simp add: stats_publish_and_prune_counters_unfold [OF assms(1)])
qed

lemma prune_pass_table:
  assumes "stats_publish_and_prune_counters lib now s = Inr s'"
      and "stats_options s = Some options"
  shows "counter_hash s' = filter (\<lambda>c. \<not> is_expired options now c) (counter_hash s)"
proof -
  from assms obtain ev tbl' st' where
    run: "g_hash_table_foreach_remove (stats_format_and_prune_cluster lib (Some options))
            (counter_hash s) (timer_state0 now ev) = Inr (tbl', st')"
    and tbl: "counter_hash s' = tbl'"
    by (auto simp: stats_publish_and_prune_counters_unfold split: if_splits sum.splits)
  from foreach_remove_effect [OF run] tbl show ?thesis
    by (simp add: timer_state0_def)
qed

lemma ex_run:
  "stats_publish_and_prune_counters lib 701 ex_state =
     Inr (ex_state\<lparr>counter_hash := [ex_static],
            msg_sent :=
              [\<lparr>ev_pri = EVT_PRI_INFO, ev_desc = ''Log statistics'',
                ev_tags = [evt_tag_printf ''processed'' ''global()=1'',
                           evt_tag_printf ''processed'' ''sender(10.0.0.1)=1'',
                           evt_tag_printf ''stamp'' ''sender(10.0.0.1)=100'']\<rparr>,
               \<lparr>ev_pri = EVT_PRI_NOTICE, ev_desc = ''Pruning stats-counters have finished'',
                ev_tags = [evt_tag_int ''dropped'' 1, evt_tag_long ''oldest-timestamp'' 100]\<rparr>]\<rparr>)"
  by (simp add: eval_defs ex_state_def ex_options_def ex_static_def ex_sender_def upt_rec)

text \<open>
  Claim C1. A prune pass removes a cluster if and only if the cluster is dynamic, its
  \<open>ref_cnt\<close> is 0, its \<open>live_mask\<close> contains the Stamp bit and its stamp is at most
  \<open>now - lifetime\<close>; a cluster that is not dynamic is never removed, whatever the state of
  the registry. The pass is \<open>stats_publish_and_prune_counters\<close>, which dereferences
  \<open>stats_options\<close>; \<open>ref_cnt\<close> is a count, so the equivalence is stated for clusters
  whose \<open>ref_cnt\<close> is not negative (the code tests \<open>ref_cnt > 0\<close>).
\<close>

theorem C1_prune_removes_exactly_expired:
  assumes "stats_publish_and_prune_counters lib now s = Inr s'"
      and "stats_options s = Some options"
      and "sc \<in> set (counter_hash s)"
  shows "(\<not> dynamic sc \<longrightarrow> sc \<in> set (counter_hash s')) \<and>
         (0 \<le> ref_cnt sc \<longrightarrow>
            (sc \<notin> set (counter_hash s') \<longleftrightarrow>
               dynamic sc \<and> ref_cnt sc = 0 \<and> bit (live_mask sc) SC_TYPE_STAMP
                 \<and> counters sc ! SC_TYPE_STAMP \<le> now - lifetime options))"
  using assms(3) by (auto simp: prune_pass_table [OF assms(1,2)] is_expired_def)

theorem C1_prune_witness:
  "stats_publish_and_prune_counters EVT_NULL_DEREFERENCED 701 ex_state \<noteq> Inl NullPointer
   \<and> ex_sender \<in> set (counter_hash ex_state) \<and> ex_static \<in> set (counter_hash ex_state)
   \<and> (\<exists>s'. stats_publish_and_prune_counters EVT_NULL_DEREFERENCED 701 ex_state = Inr s'
          \<and> ex_sender \<notin> set (counter_hash s') \<and> ex_static \<in> set (counter_hash s'))"
proof -
  obtain s' where run: "stats_publish_and_prune_counters EVT_NULL_DEREFERENCED 701 ex_state = Inr s'"
    using ex_run by blast
  have opts: "stats_options ex_state = Some ex_options"
    by (simp add: ex_state_def)
  have m1: "ex_sender \<in> set (counter_hash ex_state)" and m2: "ex_static \<in> set (counter_hash ex_state)"
    by (simp_all add: ex_state_def)
  from C1_prune_removes_exactly_expired [OF run opts m1]
  have "ex_sender \<notin> set (counter_hash s')"
    by (simp add: ex_sender_def ex_options_def SC_TYPE_STAMP_def bit_iff_odd)
  moreover from C1_prune_removes_exactly_expired [OF run opts m2]
  have "ex_static \<in> set (counter_hash s')"
    by (simp add: ex_static_def)
  ultimately show ?thesis using run m1 m2 by simp
qed

subsection \<open>Publishing switched off\<close>

text \<open>
  With \<open>log_freq = 0\<close> no record is created, but every cluster is still formatted and
  each tag is handed to \<open>evt_rec_add_tag\<close> with the \<open>NULL\<close> record. First the library
  that ignores a \<open>NULL\<close> record: formatting with and without a record fails alike, and
  the walk without a record is the walk with one, the record erased.
\<close>

lemma stats_log_format_counter_erase:
  "map_sum id (\<lambda>_. None) (stats_log_format_counter EVT_NULL_IGNORED sc type item (Some e)) =
     stats_log_format_counter EVT_NULL_IGNORED sc type item None"
  by (simp add: stats_log_format_counter_def evt_rec_add_tag_def split: sum.split)

lemma foreach_counter_loop_erase:
  "map_sum id (\<lambda>_. None) (foreach_counter_loop (stats_log_format_counter EVT_NULL_IGNORED) sc ts (Some e)) =
     foreach_counter_loop (stats_log_format_counter EVT_NULL_IGNORED) sc ts None"
proof (induction ts arbitrary: e)
  case Nil
  show ?case by simp
next
  case (Cons t ts)
  show ?case
  proof (cases "live_mask sc AND type_bit t \<noteq> 0")
    case False
    then show ?thesis using Cons.IH by simp
  next
    case True
    show ?thesis
    proof (cases "stats_log_format_counter EVT_NULL_IGNORED sc t (counters sc ! t) (Some e)")
      case (Inl err)
      with stats_log_format_counter_erase [of sc t "counters sc ! t" e]
      have "stats_log_format_counter EVT_NULL_IGNORED sc t (counters sc ! t) None = Inl err" by simp
      with Inl True show ?thesis by simp
    next
      case (Inr ev)
      then obtain e' where ev: "ev = Some e'"
        using stats_log_format_counter_Some by blast
      from Inr stats_log_format_counter_erase [of sc t "counters sc ! t" e]
      have "stats_log_format_counter EVT_NULL_IGNORED sc t (counters sc ! t) None = Inr None" by simp
      with Inr ev True Cons.IH [of e'] show ?thesis by simp
    qed
  qed
qed

lemma foreach_counter_loop_None:
  "foreach_counter_loop (stats_log_format_counter EVT_NULL_IGNORED) sc ts None = Inr ev \<Longrightarrow> ev = None"
  by (induction ts)
     (auto simp: stats_log_format_counter_def evt_rec_add_tag_def split: if_splits sum.splits)

lemma stats_log_format_cluster_erase:
  "map_sum id (\<lambda>_. None) (stats_log_format_cluster EVT_NULL_IGNORED sc ev) = stats_log_format_cluster EVT_NULL_IGNORED sc None"
proof (cases ev)
  case None
  show ?thesis
  proof (cases "stats_log_format_cluster EVT_NULL_IGNORED sc None")
    case (Inl err)
    with None show ?thesis by simp
  next
    case (Inr ev')
    then have "ev' = None"
      unfolding stats_log_format_cluster_def stats_cluster_foreach_counter_def
      by (rule foreach_counter_loop_None)
    with None Inr show ?thesis by simp
  qed
next
  case (Some e)
  then show ?thesis
    unfolding stats_log_format_cluster_def stats_cluster_foreach_counter_def
    by (simp add: foreach_counter_loop_erase)
qed

lemma stats_format_and_prune_cluster_erase:
  "map_sum id (\<lambda>(r, st'). (r, erase_event st')) (stats_format_and_prune_cluster EVT_NULL_IGNORED opts sc st) =
     stats_format_and_prune_cluster EVT_NULL_IGNORED opts sc (erase_event st)"
proof (cases "stats_log_format_cluster EVT_NULL_IGNORED sc (stats_event st)")
  case (Inl err)
  with stats_log_format_cluster_erase [of sc "stats_event st"]
  have "stats_log_format_cluster EVT_NULL_IGNORED sc None = Inl err" by simp
  with Inl show ?thesis
    by (simp add: stats_format_and_prune_cluster_def erase_event_def)
next
  case (Inr ev)
  with stats_log_format_cluster_erase [of sc "stats_event st"]
  have "stats_log_format_cluster EVT_NULL_IGNORED sc None = Inr None" by simp
  with Inr show ?thesis
    by (simp add: stats_format_and_prune_cluster_def erase_event_def
          stats_prune_counter_erase sum.map_comp comp_def split_def id_def)
qed

lemma foreach_remove_erase:
  "map_sum id (\<lambda>(tbl', st'). (tbl', erase_event st'))
     (g_hash_table_foreach_remove (stats_format_and_prune_cluster EVT_NULL_IGNORED opts) tbl st) =
   g_hash_table_foreach_remove (stats_format_and_prune_cluster EVT_NULL_IGNORED opts) tbl (erase_event st)"
proof (induction tbl arbitrary: st)
  case Nil
  show ?case by simp
next
  case (Cons a tbl)
  show ?case
  proof (cases "stats_format_and_prune_cluster EVT_NULL_IGNORED opts a st")
    case (Inl err)
    with stats_format_and_prune_cluster_erase [of opts a st]
    have "stats_format_and_prune_cluster EVT_NULL_IGNORED opts a (erase_event st) = Inl err" by simp
    with Inl show ?thesis by simp
  next
    case (Inr res)
    obtain r st1 where res: "res = (r, st1)" by (cases res)
    with Inr stats_format_and_prune_cluster_erase [of opts a st]
    have e: "stats_format_and_prune_cluster EVT_NULL_IGNORED opts a (erase_event st) = Inr (r, erase_event st1)"
      by simp
    show ?thesis
    proof (cases "g_hash_table_foreach_remove (stats_format_and_prune_cluster EVT_NULL_IGNORED opts) tbl st1")
      case (Inl err)
      with Cons.IH [of st1]
      have "g_hash_table_foreach_remove (stats_format_and_prune_cluster EVT_NULL_IGNORED opts) tbl (erase_event st1)
              = Inl err" by simp
      with Inl Inr res e show ?thesis by simp
    next
      case (Inr res2)
      obtain tbl2 st2 where res2: "res2 = (tbl2, st2)" by (cases res2)
      with Inr Cons.IH [of st1]
      have "g_hash_table_foreach_remove (stats_format_and_prune_cluster EVT_NULL_IGNORED opts) tbl (erase_event st1)
              = Inr (tbl2, erase_event st2)" by simp
      with Inr res2 \<open>stats_format_and_prune_cluster EVT_NULL_IGNORED opts a st = Inr res\<close> res e
      show ?thesis by simp
    qed
  qed
qed

text \<open>
  So with that library the pass with \<open>log_freq = 0\<close> and the pass with \<open>log_freq > 0\<close>
  fail alike or return alike: the same table, and the same messages but for the
  \<open>Log statistics\<close> record.
\<close>

lemma silent_pass_when_null_ignored:
  assumes opts: "stats_options s = Some options" and silent: "log_freq options = 0" and f: "0 < f"
  shows "case stats_publish_and_prune_counters EVT_NULL_IGNORED now s of
           Inl err \<Rightarrow>
             stats_publish_and_prune_counters EVT_NULL_IGNORED now
               (s\<lparr>stats_options := Some (options\<lparr>log_freq := f\<rparr>)\<rparr>) = Inl err
         | Inr s0 \<Rightarrow>
             (\<exists>s1 ev oldest.
                stats_publish_and_prune_counters EVT_NULL_IGNORED now
                  (s\<lparr>stats_options := Some (options\<lparr>log_freq := f\<rparr>)\<rparr>) = Inr s1
                \<and> counter_hash s0 = filter (\<lambda>c. \<not> is_expired options now c) (counter_hash s)
                \<and> counter_hash s1 = counter_hash s0
                \<and> ev_desc ev = ''Log statistics'' \<and> ev_pri ev = EVT_PRI_INFO
                \<and> (if filter (is_expired options now) (counter_hash s) = []
                    then msg_sent s0 = msg_sent s \<and> msg_sent s1 = msg_sent s @ [ev]
                    else msg_sent s0 = msg_sent s @
                           [msg_event_create EVT_PRI_NOTICE ''Pruning stats-counters have finished''
                              [evt_tag_int ''dropped''
                                 (int (length (filter (is_expired options now) (counter_hash s)))),
                               evt_tag_long ''oldest-timestamp'' oldest]]
                       \<and> msg_sent s1 = msg_sent s @ [ev] @
                           [msg_event_create EVT_PRI_NOTICE ''Pruning stats-counters have finished''
                              [evt_tag_int ''dropped''
                                 (int (length (filter (is_expired options now) (counter_hash s)))),
                               evt_tag_long ''oldest-timestamp'' oldest]]))"
proof (cases "stats_locked s")
  case True
  with opts show ?thesis
    by (simp add: stats_publish_and_prune_counters_def stats_lock_def Let_def)
next
  case False
  let ?ev0 = "msg_event_create EVT_PRI_INFO ''Log statistics'' []"
  let ?s1 = "s\<lparr>stats_options := Some (options\<lparr>log_freq := f\<rparr>)\<rparr>"
  let ?run = "\<lambda>ev. g_hash_table_foreach_remove (stats_format_and_prune_cluster EVT_NULL_IGNORED (Some options))
                      (counter_hash s) (timer_state0 now ev)"
  have p0: "stats_publish_and_prune_counters EVT_NULL_IGNORED now s =
      (case ?run None of Inl err \<Rightarrow> Inl err
       | Inr (tbl', st') \<Rightarrow>
           Inr (s\<lparr>counter_hash := tbl', stats_locked := False,
                  msg_sent := msg_sent s @ prune_notice st'\<rparr>))"
    using False silent
    by (simp add: stats_publish_and_prune_counters_unfold [OF opts] split: sum.split)
  have "stats_options ?s1 = Some (options\<lparr>log_freq := f\<rparr>)" by simp
  from stats_publish_and_prune_counters_unfold [OF this, where now = now and lib = EVT_NULL_IGNORED]
  have p1: "stats_publish_and_prune_counters EVT_NULL_IGNORED now ?s1 =
      (case ?run (Some ?ev0) of Inl err \<Rightarrow> Inl err
       | Inr (tbl', st') \<Rightarrow>
           Inr (s\<lparr>stats_options := Some (options\<lparr>log_freq := f\<rparr>), counter_hash := tbl',
                  stats_locked := False,
                  msg_sent := msg_sent s
                     @ (case stats_event st' of Some ev \<Rightarrow> [ev] | None \<Rightarrow> [])
                     @ prune_notice st'\<rparr>))"
    using False f by (simp add: stats_format_and_prune_cluster_options split: sum.split)
  have er: "map_sum id (\<lambda>(tbl', st'). (tbl', erase_event st')) (?run (Some ?ev0)) = ?run None"
    using foreach_remove_erase [of "Some options" "counter_hash s" "timer_state0 now (Some ?ev0)"]
    by (simp add: erase_event_def timer_state0_def)
  show ?thesis
  proof (cases "?run (Some ?ev0)")
    case (Inl err)
    with er have "?run None = Inl err" by simp
    with Inl p0 p1 show ?thesis by simp
  next
    case (Inr res)
    obtain tbl' st' where res: "res = (tbl', st')" by (cases res)
    with Inr er have r0: "?run None = Inr (tbl', erase_event st')" by simp
    from Inr res have r1: "?run (Some ?ev0) = Inr (tbl', st')" by simp
    from foreach_remove_effect [OF r1]
    have tbl: "tbl' = filter (\<lambda>c. \<not> is_expired options now c) (counter_hash s)"
      and dropped: "dropped_counters st' =
                      int (length (filter (is_expired options now) (counter_hash s)))"
      and ev: "\<exists>e'. stats_event st' = Some e' \<and> ev_desc e' = ev_desc ?ev0 \<and> ev_pri e' = ev_pri ?ev0"
      by (simp_all add: timer_state0_def)
    from ev obtain e' where e': "stats_event st' = Some e'" "ev_desc e' = ''Log statistics''"
      "ev_pri e' = EVT_PRI_INFO"
      by (auto simp: msg_event_create_def)
    have n: "prune_notice (erase_event st') = prune_notice st'"
      by (simp add: prune_notice_def erase_event_def)
    let ?S0 = "s\<lparr>counter_hash := tbl', stats_locked := False,
                 msg_sent := msg_sent s @ prune_notice st'\<rparr>"
    let ?S1 = "s\<lparr>stats_options := Some (options\<lparr>log_freq := f\<rparr>), counter_hash := tbl',
                 stats_locked := False, msg_sent := msg_sent s @ [e'] @ prune_notice st'\<rparr>"
    let ?notice = "\<lambda>oldest.
          [msg_event_create EVT_PRI_NOTICE ''Pruning stats-counters have finished''
             [evt_tag_int ''dropped''
                (int (length (filter (is_expired options now) (counter_hash s)))),
              evt_tag_long ''oldest-timestamp'' oldest]]"
    have P0: "stats_publish_and_prune_counters EVT_NULL_IGNORED now s = Inr ?S0"
      unfolding p0 r0 by (simp add: n)
    have P1: "stats_publish_and_prune_counters EVT_NULL_IGNORED now ?s1 = Inr ?S1"
      unfolding p1 r1 by (simp add: e')
    have msgs: "if filter (is_expired options now) (counter_hash s) = []
                then msg_sent ?S0 = msg_sent s \<and> msg_sent ?S1 = msg_sent s @ [e']
                else msg_sent ?S0 = msg_sent s @ ?notice (oldest_counter st')
                   \<and> msg_sent ?S1 = msg_sent s @ [e'] @ ?notice (oldest_counter st')"
      by (simp add: prune_notice_def dropped)
    have "\<exists>s1 ev oldest.
            stats_publish_and_prune_counters EVT_NULL_IGNORED now ?s1 = Inr s1
            \<and> counter_hash ?S0 = filter (\<lambda>c. \<not> is_expired options now c) (counter_hash s)
            \<and> counter_hash s1 = counter_hash ?S0
            \<and> ev_desc ev = ''Log statistics'' \<and> ev_pri ev = EVT_PRI_INFO
            \<and> (if filter (is_expired options now) (counter_hash s) = []
                then msg_sent ?S0 = msg_sent s \<and> msg_sent s1 = msg_sent s @ [ev]
                else msg_sent ?S0 = msg_sent s @ ?notice oldest
                   \<and> msg_sent s1 = msg_sent s @ [ev] @ ?notice oldest)"
    proof (intro exI conjI)
      show "stats_publish_and_prune_counters EVT_NULL_IGNORED now ?s1 = Inr ?S1" by (rule P1)
      show "counter_hash ?S0 = filter (\<lambda>c. \<not> is_expired options now c) (counter_hash s)"
        by (simp add: tbl)
      show "counter_hash ?S1 = counter_hash ?S0" by simp
      show "ev_desc e' = ''Log statistics''" by (rule e')
      show "ev_pri e' = EVT_PRI_INFO" by (rule e')
      show "if filter (is_expired options now) (counter_hash s) = []
            then msg_sent ?S0 = msg_sent s \<and> msg_sent ?S1 = msg_sent s @ [e']
            else msg_sent ?S0 = msg_sent s @ ?notice (oldest_counter st')
               \<and> msg_sent ?S1 = msg_sent s @ [e'] @ ?notice (oldest_counter st')"
        by (rule msgs)
    qed
    then show ?thesis
      by (simp only: P0 sum.case)
  qed
qed

text \<open>
  Now the library that dereferences the record: the walk without a record aborts at the
  first cluster with a live counter.
\<close>

lemma foreach_counter_loop_null:
  assumes "source_ok (source sc)" and "\<forall>t\<in>set ts. t < SC_TYPE_MAX"
  shows "foreach_counter_loop (stats_log_format_counter EVT_NULL_DEREFERENCED) sc ts None =
           (if \<exists>t\<in>set ts. bit (live_mask sc) t then Inl NullPointer else Inr None)"
  using assms(2)
proof (induction ts)
  case Nil
  show ?case by simp
next
  case (Cons t ts)
  then have t: "t < SC_TYPE_MAX" and ts: "\<forall>t\<in>set ts. t < SC_TYPE_MAX" by simp_all
  have "stats_log_format_counter EVT_NULL_DEREFERENCED sc t (counters sc ! t) None = Inl NullPointer"
    by (simp add: stats_log_format_counter_def stats_log_format_tag_ok [OF t assms(1)]
          evt_rec_add_tag_def)
  with Cons.IH [OF ts] show ?case by (simp add: type_bit_test)
qed

lemma stats_format_and_prune_cluster_null:
  assumes "source_ok (source sc)" and "stats_event st = None"
  shows "stats_format_and_prune_cluster EVT_NULL_DEREFERENCED opts sc st =
           (if \<exists>t<SC_TYPE_MAX. bit (live_mask sc) t then Inl NullPointer
            else stats_prune_counter opts sc st)"
proof -
  have fmt: "stats_log_format_cluster EVT_NULL_DEREFERENCED sc None =
          (if \<exists>t<SC_TYPE_MAX. bit (live_mask sc) t then Inl NullPointer else Inr None)"
    unfolding stats_log_format_cluster_def stats_cluster_foreach_counter_def
    using foreach_counter_loop_null [OF assms(1), of "[0..<SC_TYPE_MAX]"] by simp
  have same: "st\<lparr>stats_event := None\<rparr> = st"
    using assms(2) by simp
  show ?thesis
  proof (cases "\<exists>t<SC_TYPE_MAX. bit (live_mask sc) t")
    case True
    with fmt assms(2) show ?thesis
      by (simp add: stats_format_and_prune_cluster_def)
  next
    case False
    with fmt have "stats_log_format_cluster EVT_NULL_DEREFERENCED sc None = Inr None"
      by simp
    with False assms(2) show ?thesis
      by (auto simp: stats_format_and_prune_cluster_def same)
  qed
qed

lemma foreach_remove_null:
  assumes "\<forall>sc\<in>set tbl. source_ok (source sc)"
      and "\<exists>sc\<in>set tbl. \<exists>t<SC_TYPE_MAX. bit (live_mask sc) t"
      and "stats_event st = None"
  shows "g_hash_table_foreach_remove
           (stats_format_and_prune_cluster EVT_NULL_DEREFERENCED (Some options)) tbl st
           = Inl NullPointer"
  using assms
proof (induction tbl arbitrary: st)
  case Nil
  then show ?case by simp
next
  case (Cons a tbl)
  from Cons.prems have ok: "source_ok (source a)" by simp
  note head = stats_format_and_prune_cluster_null [OF ok Cons.prems(3), of "Some options"]
  show ?case
  proof (cases "\<exists>t<SC_TYPE_MAX. bit (live_mask a) t")
    case True
    with head show ?thesis by simp
  next
    case False
    with head have h: "stats_format_and_prune_cluster EVT_NULL_DEREFERENCED (Some options) a st
                         = stats_prune_counter (Some options) a st" by simp
    have "\<exists>r st1. stats_prune_counter (Some options) a st = Inr (r, st1)"
      by (cases "is_expired options (now_sec st) a")
         (auto simp: stats_prune_counter_def stats_counter_is_expired_Some Let_def)
    then obtain r st1 where p: "stats_prune_counter (Some options) a st = Inr (r, st1)"
      by blast
    from stats_prune_counter_effect [OF p] Cons.prems(3) have e1: "stats_event st1 = None"
      by simp
    from Cons.prems False have "\<forall>sc\<in>set tbl. source_ok (source sc)"
      and "\<exists>sc\<in>set tbl. \<exists>t<SC_TYPE_MAX. bit (live_mask sc) t" by auto
    from Cons.IH [OF this e1] h p show ?thesis by simp
  qed
qed

lemma silent_pass_when_null_dereferenced:
  assumes "stats_options s = Some options" and "\<not> stats_locked s" and "\<not> 0 < log_freq options"
      and "\<forall>sc\<in>set (counter_hash s). source_ok (source sc)"
      and "\<exists>sc\<in>set (counter_hash s). \<exists>t<SC_TYPE_MAX. bit (live_mask sc) t"
  shows "stats_publish_and_prune_counters EVT_NULL_DEREFERENCED now s = Inl NullPointer"
proof -
  have "stats_event (timer_state0 now None) = None"
    by (simp add: timer_state0_def)
  from foreach_remove_null [OF assms(4,5) this, of options] assms(2,3) show ?thesis
    by (simp add: stats_publish_and_prune_counters_unfold [OF assms(1)])
qed

text \<open>
  Claim C9. A publish-and-prune pass with \<open>options.log_freq = 0\<close> creates and sends no
  \<open>Log statistics\<close> record, but still removes every expired dynamic cluster as a pass
  with \<open>log_freq > 0\<close> would, and still sends the pruning notice. The code creates no
  record, but the guard \<open>if (publish)\<close> that creating and sending the record have is
  missing where the clusters are formatted: \<open>evt_rec_add_tag\<close> gets the \<open>NULL\<close> record.
  On the example registry, with a library that dereferences the record, the pass with
  \<open>log_freq = 0\<close> aborts before anything is pruned, while the pass with \<open>log_freq = 600\<close>
  prunes the expired cluster and sends the notice; with a library that ignores a \<open>NULL\<close>
  record the pass with \<open>log_freq = 0\<close> does what the claim says.
\<close>

theorem C9_silent_pass_null_record:
  "stats_publish_and_prune_counters EVT_NULL_DEREFERENCED 701 ex_silent = Inl NullPointer
   \<and> stats_publish_and_prune_counters EVT_NULL_DEREFERENCED 701 ex_state =
       Inr (ex_state\<lparr>counter_hash := [ex_static],
              msg_sent :=
                [\<lparr>ev_pri = EVT_PRI_INFO, ev_desc = ''Log statistics'',
                  ev_tags = [evt_tag_printf ''processed'' ''global()=1'',
                             evt_tag_printf ''processed'' ''sender(10.0.0.1)=1'',
                             evt_tag_printf ''stamp'' ''sender(10.0.0.1)=100'']\<rparr>,
                 \<lparr>ev_pri = EVT_PRI_NOTICE, ev_desc = ''Pruning stats-counters have finished'',
                  ev_tags = [evt_tag_int ''dropped'' 1, evt_tag_long ''oldest-timestamp'' 100]\<rparr>]\<rparr>)
   \<and> stats_publish_and_prune_counters EVT_NULL_IGNORED 701 ex_silent =
       Inr (ex_silent\<lparr>counter_hash := [ex_static],
              msg_sent :=
                [\<lparr>ev_pri = EVT_PRI_NOTICE, ev_desc = ''Pruning stats-counters have finished'',
                  ev_tags = [evt_tag_int ''dropped'' 1, evt_tag_long ''oldest-timestamp'' 100]\<rparr>]\<rparr>)"
  by (simp add: eval_defs ex_silent_def ex_defs upt_rec)

subsection \<open>Reference counts\<close>

lemma outstanding_Cons:
  "outstanding (h # out) key = (if fst h = key then 1 else 0) + outstanding out key"
  by (simp add: outstanding_def)

lemma outstanding_remove1:
  "h \<in> set out \<Longrightarrow>
     outstanding out key = (if fst h = key then 1 else 0) + outstanding (remove1 h out) key"
  by (induction out) (auto simp: outstanding_def)

lemma outstanding_zero: "outstanding out key = 0 \<longleftrightarrow> key \<notin> fst ` set out"
  by (auto simp: outstanding_def filter_empty_conv image_iff)

lemma registry_inv_table_eq:
  "registry_inv s out \<Longrightarrow> counter_hash s' = counter_hash s \<Longrightarrow> registry_inv s' out"
  by (simp add: registry_inv_def)

lemma registry_inv_handle_key:
  assumes "registry_inv s out" and "h \<in> set out"
  shows "fst h \<in> cluster_key ` set (counter_hash s)"
proof -
  from assms obtain sc where "sc \<in> set (counter_hash s)" "cluster_key sc = fst h"
    unfolding registry_inv_def by blast
  then show ?thesis by (metis imageI)
qed

text \<open>The two shapes of an update by a registration.\<close>

lemma registry_inv_insert:
  assumes inv: "registry_inv s out"
      and absent: "g_hash_table_lookup (counter_hash s) key = None"
      and new: "cluster_key sc = key" "ref_cnt sc = 1" "bit (live_mask sc) type"
      and tbl: "counter_hash s' = counter_hash s @ [sc]"
  shows "registry_inv s' ((key, type) # out)"
proof -
  from absent have nokey: "key \<notin> cluster_key ` set (counter_hash s)"
    by (simp add: lookup_None_iff)
  with registry_inv_handle_key [OF inv] have "key \<notin> fst ` set out"
    by auto
  then have zero: "outstanding out key = 0"
    by (simp add: outstanding_zero)
  have "distinct (map cluster_key (counter_hash s'))"
    using inv nokey new(1) by (simp add: registry_inv_def tbl)
  moreover have "\<forall>c\<in>set (counter_hash s'). ref_cnt c = int (outstanding ((key, type) # out) (cluster_key c))"
    using inv nokey new zero by (auto simp: registry_inv_def tbl outstanding_Cons)
  moreover have "\<forall>h\<in>set ((key, type) # out).
      \<exists>c\<in>set (counter_hash s'). cluster_key c = fst h \<and> bit (live_mask c) (snd h)"
    using inv new by (auto simp: registry_inv_def tbl)
  ultimately show ?thesis by (simp add: registry_inv_def)
qed

lemma registry_inv_update_inc:
  assumes inv: "registry_inv s out"
      and key: "key \<in> cluster_key ` set (counter_hash s)"
      and f: "\<And>c. cluster_key (f c) = cluster_key c" "\<And>c. ref_cnt (f c) = ref_cnt c + 1"
             "\<And>c t. bit (live_mask c) t \<Longrightarrow> bit (live_mask (f c)) t"
             "\<And>c. bit (live_mask (f c)) type"
      and tbl: "counter_hash s' = cluster_update key f (counter_hash s)"
  shows "registry_inv s' ((key, type) # out)"
proof -
  let ?g = "\<lambda>c. if cluster_key c = key then f c else c"
  from inv have d: "distinct (map cluster_key (counter_hash s))"
    by (simp add: registry_inv_def)
  then have tbl': "counter_hash s' = map ?g (counter_hash s)"
    by (simp add: tbl cluster_update_distinct)
  have keys: "map cluster_key (counter_hash s') = map cluster_key (counter_hash s)"
    by (simp add: tbl cluster_update_keys f(1))
  have "distinct (map cluster_key (counter_hash s'))"
    using d keys by simp
  moreover have "ref_cnt c' = int (outstanding ((key, type) # out) (cluster_key c'))"
    if "c' \<in> set (counter_hash s')" for c'
  proof -
    from that tbl' obtain c where c: "c \<in> set (counter_hash s)" "c' = ?g c" by auto
    with inv have "ref_cnt c = int (outstanding out (cluster_key c))"
      by (simp add: registry_inv_def)
    with c show ?thesis by (simp add: f outstanding_Cons)
  qed
  moreover have "\<exists>c'\<in>set (counter_hash s'). cluster_key c' = fst h \<and> bit (live_mask c') (snd h)"
    if "h \<in> set ((key, type) # out)" for h
  proof (cases "h = (key, type)")
    case True
    from key obtain c where c: "c \<in> set (counter_hash s)" "cluster_key c = key" by auto
    then have "?g c \<in> set (counter_hash s')" by (simp add: tbl')
    with c True show ?thesis by (intro bexI [of _ "?g c"]) (simp_all add: f)
  next
    case False
    with that have "h \<in> set out" by simp
    with inv obtain c where c: "c \<in> set (counter_hash s)" "cluster_key c = fst h"
      "bit (live_mask c) (snd h)"
      unfolding registry_inv_def by blast
    then have "?g c \<in> set (counter_hash s')" by (simp add: tbl')
    with c show ?thesis by (intro bexI [of _ "?g c"]) (simp_all add: f)
  qed
  ultimately show ?thesis by (simp add: registry_inv_def)
qed

lemma registry_inv_update_dec:
  assumes inv: "registry_inv s out"
      and h: "h \<in> set out" "fst h = key"
      and tbl: "counter_hash s' =
                  cluster_update key (\<lambda>c. c\<lparr>ref_cnt := ref_cnt c - 1\<rparr>) (counter_hash s)"
  shows "registry_inv s' (remove1 h out)"
proof -
  let ?f = "\<lambda>c. c\<lparr>ref_cnt := ref_cnt c - 1\<rparr>"
  let ?g = "\<lambda>c. if cluster_key c = key then ?f c else c"
  from inv have d: "distinct (map cluster_key (counter_hash s))"
    by (simp add: registry_inv_def)
  then have tbl': "counter_hash s' = map ?g (counter_hash s)"
    by (simp add: tbl cluster_update_distinct)
  have keys: "map cluster_key (counter_hash s') = map cluster_key (counter_hash s)"
    by (simp add: tbl cluster_update_keys)
  have "distinct (map cluster_key (counter_hash s'))"
    using d keys by simp
  moreover have "ref_cnt c' = int (outstanding (remove1 h out) (cluster_key c'))"
    if "c' \<in> set (counter_hash s')" for c'
  proof -
    from that tbl' obtain c where c: "c \<in> set (counter_hash s)" "c' = ?g c" by auto
    with inv have "ref_cnt c = int (outstanding out (cluster_key c))"
      by (simp add: registry_inv_def)
    with c h outstanding_remove1 [OF h(1), of "cluster_key c"] show ?thesis by simp
  qed
  moreover have "\<exists>c'\<in>set (counter_hash s'). cluster_key c' = fst x \<and> bit (live_mask c') (snd x)"
    if "x \<in> set (remove1 h out)" for x
  proof -
    from that have "x \<in> set out" using set_remove1_subset [of h out] by auto
    with inv obtain c where c: "c \<in> set (counter_hash s)" "cluster_key c = fst x"
      "bit (live_mask c) (snd x)"
      unfolding registry_inv_def by blast
    then have "?g c \<in> set (counter_hash s')" by (simp add: tbl')
    with c show ?thesis by (intro bexI [of _ "?g c"]) simp_all
  qed
  ultimately show ?thesis by (simp add: registry_inv_def)
qed

lemma registry_inv_prune:
  assumes inv: "registry_inv s out"
      and tbl: "counter_hash s' = filter (\<lambda>c. \<not> is_expired options now c) (counter_hash s)"
  shows "registry_inv s' out"
proof -
  from inv have "distinct (map cluster_key (counter_hash s'))"
    by (simp add: registry_inv_def tbl distinct_map_filter)
  moreover have "\<forall>c\<in>set (counter_hash s'). ref_cnt c = int (outstanding out (cluster_key c))"
    using inv by (simp add: registry_inv_def tbl)
  moreover have "\<exists>c\<in>set (counter_hash s'). cluster_key c = fst h \<and> bit (live_mask c) (snd h)"
    if "h \<in> set out" for h
  proof -
    from that inv obtain c where c: "c \<in> set (counter_hash s)" "cluster_key c = fst h"
      "bit (live_mask c) (snd h)" and r: "ref_cnt c = int (outstanding out (cluster_key c))"
      unfolding registry_inv_def by blast
    from that c(2) have "outstanding out (cluster_key c) \<noteq> 0"
      by (simp add: outstanding_zero image_iff) (metis)
    with r have "0 < ref_cnt c" by simp
    then have "\<not> is_expired options now c" by (simp add: is_expired_def)
    with c show ?thesis by (intro bexI [of _ c]) (simp_all add: tbl)
  qed
  ultimately show ?thesis by (simp add: registry_inv_def)
qed

lemma lookup_Some_key:
  "g_hash_table_lookup tbl key = Some sc \<Longrightarrow> key \<in> cluster_key ` set tbl"
  using lookup_None_iff [of tbl key] by auto

lemma stats_register_counter_inv:
  assumes inv: "registry_inv s out"
      and reg: "stats_register_counter stats_level src id_p instance_p type s = Inr (counter, s')"
  shows "registry_inv s' (held counter @ out)"
proof -
  let ?key = "(src, str_or_empty id_p, str_or_empty instance_p)"
  from reg have l: "stats_locked s" and t: "type < SC_TYPE_MAX"
    by (auto simp: stats_register_counter_def split: if_splits)
  show ?thesis
  proof (cases "stats_check_level s stats_level")
    case False
    with reg l t have "counter = None" "s' = s"
      by (auto simp: stats_register_counter_def stats_add_counter_def)
    with inv show ?thesis by (simp add: held_def)
  next
    case True
    note pass = stats_register_counter_pass [OF l t True refl, of src id_p instance_p]
    show ?thesis
    proof (cases "g_hash_table_lookup (counter_hash s) ?key")
      case None
      with reg pass have c: "counter = Some (?key, type)" and
        tbl: "counter_hash s' = counter_hash s @
                [(new_cluster src id_p instance_p)\<lparr>live_mask := type_bit type\<rparr>]"
        by auto
      have "registry_inv s' ((?key, type) # out)"
        by (rule registry_inv_insert [OF inv None _ _ _ tbl])
           (simp_all add: new_cluster_def g_new0_StatsCluster_def cluster_key_def
              bit_or_type_bit [of 0, simplified])
      with c show ?thesis by (simp add: held_def)
    next
      case (Some sc)
      with reg pass have c: "counter = Some (?key, type)" and
        tbl: "counter_hash s' = cluster_update ?key
                (\<lambda>c. c\<lparr>ref_cnt := ref_cnt c + 1, live_mask := live_mask c OR type_bit type\<rparr>)
                (counter_hash s)"
        by auto
      have "registry_inv s' ((?key, type) # out)"
        by (rule registry_inv_update_inc [OF inv lookup_Some_key [OF Some] _ _ _ _ tbl])
           (simp_all add: bit_or_type_bit cluster_key_def)
      with c show ?thesis by (simp add: held_def)
    qed
  qed
qed

lemma stats_register_dynamic_counter_inv:
  assumes inv: "registry_inv s out"
      and reg: "stats_register_dynamic_counter stats_level src id_p instance_p type local_new0 s
                  = Inr ((sc_p, counter, new), s')"
  shows "registry_inv s' (held counter @ out)"
proof -
  let ?key = "(src, str_or_empty id_p, str_or_empty instance_p)"
  from reg have l: "stats_locked s" and t: "type < SC_TYPE_MAX"
    by (auto simp: stats_register_dynamic_counter_def split: if_splits)
  show ?thesis
  proof (cases "stats_check_level s stats_level")
    case False
    with reg l t have "counter = None" "s' = s"
      by (auto simp: stats_register_dynamic_counter_def stats_add_counter_def)
    with inv show ?thesis by (simp add: held_def)
  next
    case True
    note pass = stats_register_dynamic_counter_pass [OF l t True refl, of src id_p instance_p local_new0]
    show ?thesis
    proof (cases "g_hash_table_lookup (counter_hash s) ?key")
      case None
      with reg pass have c: "counter = Some (?key, type)" and
        tbl: "counter_hash s' = counter_hash s @
                [(new_cluster src id_p instance_p)\<lparr>dynamic := True, live_mask := type_bit type\<rparr>]"
        by auto
      have "registry_inv s' ((?key, type) # out)"
        by (rule registry_inv_insert [OF inv None _ _ _ tbl])
           (simp_all add: new_cluster_def g_new0_StatsCluster_def cluster_key_def
              bit_or_type_bit [of 0, simplified])
      with c show ?thesis by (simp add: held_def)
    next
      case (Some sc)
      with reg pass have c: "counter = Some (?key, type)" and
        tbl: "counter_hash s' = cluster_update ?key
                (\<lambda>c. c\<lparr>ref_cnt := ref_cnt c + 1, dynamic := True,
                        live_mask := live_mask c OR type_bit type\<rparr>)
                (counter_hash s)"
        by (auto split: if_splits)
      have "registry_inv s' ((?key, type) # out)"
        by (rule registry_inv_update_inc [OF inv lookup_Some_key [OF Some] _ _ _ _ tbl])
           (simp_all add: bit_or_type_bit cluster_key_def)
      with c show ?thesis by (simp add: held_def)
    qed
  qed
qed

lemma stats_register_associated_counter_inv:
  assumes inv: "registry_inv s out"
      and reg: "stats_register_associated_counter sc_p type s = Inr (counter, s')"
  shows "registry_inv s' (held counter @ out)"
proof (cases sc_p)
  case None
  with reg have "counter = None" "s' = s"
    by (auto simp: stats_register_associated_counter_def split: if_splits)
  with inv show ?thesis by (simp add: held_def)
next
  case (Some key)
  with reg obtain sc where sc: "g_hash_table_lookup (counter_hash s) key = Some sc"
    and c: "counter = Some (key, type)"
    and tbl: "counter_hash s' = cluster_update key
                (\<lambda>c. c\<lparr>live_mask := live_mask c OR type_bit type, ref_cnt := ref_cnt c + 1\<rparr>)
                (counter_hash s)"
    by (auto simp: stats_register_associated_counter_def split: if_splits option.splits)
  have "registry_inv s' ((key, type) # out)"
    by (rule registry_inv_update_inc [OF inv lookup_Some_key [OF sc] _ _ _ _ tbl])
       (simp_all add: bit_or_type_bit cluster_key_def)
  with c show ?thesis by (simp add: held_def)
qed

lemma stats_unregister_counter_inv:
  assumes inv: "registry_inv s out" and h: "h \<in> set out"
      and unreg: "stats_unregister_counter src id_p instance_p type (Some h) s = Inr (counter, s')"
  shows "registry_inv s' (remove1 h out)"
proof -
  let ?key = "(src, str_or_empty id_p, str_or_empty instance_p)"
  from unreg obtain sc where sc: "g_hash_table_lookup (counter_hash s) ?key = Some sc"
    and hk: "h = (cluster_key sc, type)"
    and tbl: "counter_hash s' = cluster_update ?key (\<lambda>c. c\<lparr>ref_cnt := ref_cnt c - 1\<rparr>)
                (counter_hash s)"
    by (auto simp: stats_unregister_counter_def Let_def split: if_splits option.splits)
  from lookup_SomeD [OF sc] hk have "fst h = ?key" by simp
  from registry_inv_update_dec [OF inv h this tbl] show ?thesis .
qed

lemma stats_unregister_dynamic_counter_inv:
  assumes inv: "registry_inv s out" and h: "h \<in> set out"
      and unreg: "stats_unregister_dynamic_counter (Some key) type (Some h) s = Inr s'"
  shows "registry_inv s' (remove1 h out)"
proof -
  from unreg obtain sc where sc: "g_hash_table_lookup (counter_hash s) key = Some sc"
    and hk: "h = (cluster_key sc, type)"
    and tbl: "counter_hash s' = cluster_update key (\<lambda>c. c\<lparr>ref_cnt := ref_cnt c - 1\<rparr>)
                (counter_hash s)"
    by (auto simp: stats_unregister_dynamic_counter_def split: if_splits option.splits)
  from lookup_SomeD [OF sc] hk have "fst h = key" by simp
  from registry_inv_update_dec [OF inv h this tbl] show ?thesis .
qed

lemma stats_publish_and_prune_counters_inv:
  assumes inv: "registry_inv s out"
      and run: "stats_publish_and_prune_counters lib now s = Inr s'"
  shows "registry_inv s' out"
proof -
  from run obtain options where o: "stats_options s = Some options"
    by (auto simp: stats_publish_and_prune_counters_def split: option.splits)
  from registry_inv_prune [OF inv prune_pass_table [OF run o]] show ?thesis .
qed

lemma stats_reinit_table:
  "stats_reinit options iv_now s = Inr s' \<Longrightarrow> counter_hash s' = counter_hash s"
  by (auto simp: stats_reinit_def stats_timer_reinit_def Let_def split: option.splits)

lemma client_step_inv:
  assumes inv: "registry_inv s out" and step: "client_step lib opn (s, out) = Some (s', out')"
  shows "registry_inv s' out'"
proof (cases opn)
  case OP_lock
  with step have "counter_hash s' = counter_hash s" "out' = out"
    by (auto simp: stats_lock_def split: if_splits)
  with inv show ?thesis by (simp add: registry_inv_table_eq)
next
  case OP_unlock
  with step have "counter_hash s' = counter_hash s" "out' = out"
    by (auto simp: stats_unlock_def split: if_splits)
  with inv show ?thesis by (simp add: registry_inv_table_eq)
next
  case (OP_reinit options iv_now)
  with step have "counter_hash s' = counter_hash s" "out' = out"
    by (auto split: sum.splits dest: stats_reinit_table)
  with inv show ?thesis by (simp add: registry_inv_table_eq)
next
  case (OP_register stats_level src id_p instance_p type)
  with step show ?thesis
    by (auto split: sum.splits intro: stats_register_counter_inv [OF inv])
next
  case (OP_register_dynamic stats_level src id_p instance_p type local_new0)
  with step show ?thesis
    by (auto split: sum.splits intro: stats_register_dynamic_counter_inv [OF inv])
next
  case (OP_register_associated sc_p type)
  with step show ?thesis
    by (auto split: sum.splits intro: stats_register_associated_counter_inv [OF inv])
next
  case (OP_unregister src id_p instance_p type counter)
  show ?thesis
  proof (cases counter)
    case None
    with step OP_unregister have "s' = s" "out' = out"
      by (auto simp: stats_unregister_counter_def split: sum.splits if_splits)
    with inv show ?thesis by simp
  next
    case (Some h)
    with step OP_unregister show ?thesis
      by (auto split: sum.splits if_splits intro: stats_unregister_counter_inv [OF inv])
  qed
next
  case (OP_unregister_dynamic sc_p type counter)
  show ?thesis
  proof (cases sc_p)
    case None
    with step OP_unregister_dynamic have "s' = s" "out' = out"
      by (auto simp: stats_unregister_dynamic_counter_def split: sum.splits if_splits)
    with inv show ?thesis by simp
  next
    case (Some key)
    with step OP_unregister_dynamic show ?thesis
      by (auto split: sum.splits if_splits option.splits
            intro: stats_unregister_dynamic_counter_inv [OF inv])
  qed
next
  case (OP_publish_and_prune now)
  with step have run: "stats_publish_and_prune_counters lib now s = Inr s'" and "out' = out"
    by (auto split: sum.splits)
  with stats_publish_and_prune_counters_inv [OF inv run] show ?thesis by simp
qed

lemma run_ops_inv:
  "registry_inv s out \<Longrightarrow> run_ops lib ops (s, out) = Some (s', out') \<Longrightarrow> registry_inv s' out'"
proof (induction ops arbitrary: s out)
  case Nil
  then show ?case by simp
next
  case (Cons opn ops)
  from Cons.prems(2) obtain s1 out1 where
    step: "client_step lib opn (s, out) = Some (s1, out1)" and
    rest: "run_ops lib ops (s1, out1) = Some (s', out')"
    by (auto split: option.splits)
  from Cons.IH [OF client_step_inv [OF Cons.prems(1) step] rest] show ?case .
qed

lemma registry_inv_init: "registry_inv stats_init []"
  by (simp add: registry_inv_def stats_init_def)

lemma matched_unregister_returns:
  assumes inv: "registry_inv s out" and l: "stats_locked s"
      and h: "((src, ide, inst), type) \<in> set out"
  shows "(\<exists>s'. stats_unregister_counter src (Some ide) (Some inst) type
                 (Some ((src, ide, inst), type)) s = Inr (None, s'))
       \<and> (\<exists>s'. stats_unregister_dynamic_counter (Some (src, ide, inst)) type
                 (Some ((src, ide, inst), type)) s = Inr s')"
proof -
  from inv h obtain sc where sc: "sc \<in> set (counter_hash s)" "cluster_key sc = (src, ide, inst)"
    "bit (live_mask sc) type"
    unfolding registry_inv_def by force
  from inv have "distinct (map cluster_key (counter_hash s))"
    by (simp add: registry_inv_def)
  from lookup_distinct [OF this sc(1)] sc(2)
  have "g_hash_table_lookup (counter_hash s) (src, ide, inst) = Some sc" by simp
  with l sc show ?thesis
    by (simp add: stats_unregister_counter_def stats_unregister_dynamic_counter_def
          str_or_empty_def type_bit_test)
qed

text \<open>
  Claim C5. After any matched sequence of registrations and unregistrations (with
  lock, unlock, reinit and prune passes in between), starting from the empty registry,
  the \<open>ref_cnt\<close> of every cluster is the number of outstanding registrations on it. In
  particular \<open>stats_register_associated_counter\<close> adds one to the \<open>ref_cnt\<close> of its
  cluster, and each unregistration that returns takes one off.
\<close>

theorem C5_ref_cnt_balance:
  assumes run: "run_ops lib ops (stats_init, []) = Some (s, out)"
  shows "(\<forall>sc\<in>set (counter_hash s). ref_cnt sc = int (outstanding out (cluster_key sc)))
       \<and> (\<forall>key type counter s' sc.
             stats_register_associated_counter (Some key) type s = Inr (counter, s')
               \<and> g_hash_table_lookup (counter_hash s) key = Some sc \<longrightarrow>
             g_hash_table_lookup (counter_hash s') key =
               Some (sc\<lparr>live_mask := live_mask sc OR type_bit type, ref_cnt := ref_cnt sc + 1\<rparr>))
       \<and> (\<forall>src id_p instance_p type h counter s'.
             stats_unregister_counter src id_p instance_p type (Some h) s = Inr (counter, s') \<longrightarrow>
             (\<exists>sc. g_hash_table_lookup (counter_hash s) (fst h) = Some sc
                \<and> g_hash_table_lookup (counter_hash s') (fst h) = Some (sc\<lparr>ref_cnt := ref_cnt sc - 1\<rparr>)))
       \<and> (\<forall>key type counter s'.
             stats_unregister_dynamic_counter (Some key) type counter s = Inr s' \<longrightarrow>
             (\<exists>sc. g_hash_table_lookup (counter_hash s) key = Some sc
                \<and> g_hash_table_lookup (counter_hash s') key = Some (sc\<lparr>ref_cnt := ref_cnt sc - 1\<rparr>)))"
proof (intro conjI)
  from run_ops_inv [OF registry_inv_init run]
  show "\<forall>sc\<in>set (counter_hash s). ref_cnt sc = int (outstanding out (cluster_key sc))"
    by (simp add: registry_inv_def)
next
  show "\<forall>key type counter s' sc.
          stats_register_associated_counter (Some key) type s = Inr (counter, s')
            \<and> g_hash_table_lookup (counter_hash s) key = Some sc \<longrightarrow>
          g_hash_table_lookup (counter_hash s') key =
            Some (sc\<lparr>live_mask := live_mask sc OR type_bit type, ref_cnt := ref_cnt sc + 1\<rparr>)"
    by (auto simp: stats_register_associated_counter_def lookup_cluster_update
          split: if_splits)
next
  show "\<forall>src id_p instance_p type h counter s'.
          stats_unregister_counter src id_p instance_p type (Some h) s = Inr (counter, s') \<longrightarrow>
          (\<exists>sc. g_hash_table_lookup (counter_hash s) (fst h) = Some sc
             \<and> g_hash_table_lookup (counter_hash s') (fst h) = Some (sc\<lparr>ref_cnt := ref_cnt sc - 1\<rparr>))"
    by (auto simp: stats_unregister_counter_def lookup_cluster_update Let_def
          split: if_splits option.splits dest: lookup_SomeD)
next
  show "\<forall>key type counter s'.
          stats_unregister_dynamic_counter (Some key) type counter s = Inr s' \<longrightarrow>
          (\<exists>sc. g_hash_table_lookup (counter_hash s) key = Some sc
             \<and> g_hash_table_lookup (counter_hash s') key = Some (sc\<lparr>ref_cnt := ref_cnt sc - 1\<rparr>))"
    by (auto simp: stats_unregister_dynamic_counter_def lookup_cluster_update
          split: if_splits option.splits)
qed

lemma replicate_SC_TYPE_MAX: "replicate SC_TYPE_MAX (0::int) = [0, 0, 0, 0, 0]"
  by (simp add: SC_TYPE_MAX_def numeral_eq_Suc)

lemma ex_ops_run:
  "run_ops lib ex_ops (stats_init, []) =
     Some (stats_init\<lparr>stats_options := Some ex_options, counter_hash := ex_final,
             stats_timer := \<lparr>handler = True, cookie = 600, registered = True, expires = 600000\<rparr>\<rparr>,
           [(ex_key, SC_TYPE_PROCESSED)])"
  by (simp add: ex_ops_def ex_key_def ex_final_def ex_options_def stats_init_def
        stats_reinit_def stats_timer_reinit_def stats_timer_rearm_def gint_wrap_def stats_timer_init_def
        stats_timer_kill_def stats_lock_def stats_unlock_def
        stats_register_counter_def stats_register_dynamic_counter_def stats_add_counter_def
        stats_register_associated_counter_def stats_unregister_counter_def
        stats_unregister_dynamic_counter_def stats_check_level_def str_or_empty_def
        g_hash_table_insert_def g_new0_StatsCluster_def replicate_SC_TYPE_MAX cluster_key_def
        type_bit_def held_def SC_TYPE_PROCESSED_def SC_TYPE_STAMP_def Let_def)
     (simp add: SC_TYPE_MAX_def)

theorem C5_ref_cnt_balance_witness:
  "run_ops EVT_NULL_DEREFERENCED ex_ops (stats_init, []) \<noteq> None
   \<and> list_all (\<lambda>sc. ref_cnt sc = int (outstanding [(ex_key, SC_TYPE_PROCESSED)] (cluster_key sc)))
        ex_final
   \<and> map ref_cnt ex_final = [1, 0]"
  using C5_ref_cnt_balance [OF ex_ops_run] ex_ops_run
  by (simp add: list_all_iff) (simp add: ex_final_def)

end
